theory Spec2Isabelle
  imports
    Complex_Main
    "HOL-Library.Sublist"
    "HOL-Library.Multiset"
    "HOL-Library.Product_Lexorder"
begin

section \<open>Tables of the profiling script (item xiv)\<close>

text \<open>
  The profiling script \<^verbatim>\<open>Resultados_Cap5.xiv_validacao_estrutural_estatistica_gpu.py\<close>
  reads a table into a columnar engine and profiles its numeric columns. A table is a
  list of columns; a column has a label, the string rendering of its declared dtype
  (\<^verbatim>\<open>str(df[c].dtype)\<close>) and its cells. The script selects columns by label and then
  fetches them with \<^verbatim>\<open>df[num_cols]\<close>; the model selects the columns themselves, in
  table order.
\<close>

record 'v column =
  coluna :: string
  dtype :: string
  cells :: "'v list"

record 'v dataframe =
  n_rows :: nat
  cols :: "'v column list"

subsection \<open>Selection of numeric columns\<close>

text \<open>
  Python's \<^verbatim>\<open>t in s\<close> on strings: \<open>t\<close> occurs in \<open>s\<close> as a contiguous block. The
  search tries every start position of \<open>s\<close> in turn.
\<close>

fun str_contains :: "string \<Rightarrow> string \<Rightarrow> bool" where
  "str_contains [] t = (t = [])"
| "str_contains (c # s) t = (prefix t (c # s) \<or> str_contains s t)"

text \<open>
  \<^verbatim>\<open>
  def is_numeric_dtype(dtype) -> bool:
      s = str(dtype)
      return any(t in s for t in ["int", "float", "uint", "decimal"])
  \<close>
\<close>

definition numeric_markers :: "string list" where
  "numeric_markers = [''int'', ''float'', ''uint'', ''decimal'']"

definition is_numeric_dtype :: "string \<Rightarrow> bool" where
  "is_numeric_dtype s = list_ex (\<lambda>t. str_contains s t) numeric_markers"

text \<open>
  The comprehension \<^verbatim>\<open>[c for c in df.columns if is_numeric_dtype(df[c].dtype)]\<close>, which
  \<^verbatim>\<open>numeric_describe\<close>, \<^verbatim>\<open>numeric_quantiles\<close>, \<^verbatim>\<open>range_flags\<close> and \<^verbatim>\<open>save_figures\<close> each
  evaluate first.
\<close>

definition num_cols :: "'v dataframe \<Rightarrow> 'v column list" where
  "num_cols df = filter (\<lambda>c. is_numeric_dtype (dtype c)) (cols df)"

subsection \<open>Descriptive statistics and quantiles\<close>

text \<open>
  \<^verbatim>\<open>
  def numeric_describe(df):
      num_cols = [...]
      if not num_cols:
          return cudf.DataFrame()
      desc = df[num_cols].describe()
      return desc.reset_index().rename(columns={"index": "estatistica"})
  \<close>
  The engine's \<^verbatim>\<open>describe\<close> and \<^verbatim>\<open>quantile\<close> are arguments of the model: they take the
  selected columns and return the rows of the resulting table, or fail with an engine
  error (\<open>Inl\<close>). The empty table \<^verbatim>\<open>cudf.DataFrame()\<close> has no rows. Re-indexing and
  renaming of the label column leave the rows as they are.
\<close>

definition numeric_describe ::
  "('v column list \<Rightarrow> 'e + 'r list) \<Rightarrow> 'v dataframe \<Rightarrow> 'e + 'r list" where
  "numeric_describe describe df =
     (let sel = num_cols df in
      if sel = [] then Inr [] else describe sel)"

text \<open>The default probability points \<^verbatim>\<open>qs=(0.01, 0.05, 0.95, 0.99)\<close>.\<close>

definition default_qs :: "rat list" where
  "default_qs = [1 / 100, 5 / 100, 95 / 100, 99 / 100]"

definition numeric_quantiles ::
  "(rat list \<Rightarrow> 'v column list \<Rightarrow> 'e + 'r list) \<Rightarrow> rat list \<Rightarrow> 'v dataframe \<Rightarrow> 'e + 'r list" where
  "numeric_quantiles quantile_table qs df =
     (let sel = num_cols df in
      if sel = [] then Inr [] else quantile_table qs sel)"

subsection \<open>Range flags\<close>

text \<open>
  One row of the range-flags table. Numbers are exact rationals: the engine's
  floating-point rounding is not modelled.
\<close>

record range_row =
  rf_coluna :: string
  rf_min :: rat
  rf_max :: rat
  rf_range :: rat
  flag_invertido :: bool
  flag_range_muito_alto :: bool

text \<open>Results of a sequence of engine calls; the first failure is the one raised.\<close>

fun collect :: "('e + 'a) list \<Rightarrow> 'e + 'a list" where
  "collect [] = Inr []"
| "collect (x # xs) =
     (case x of
        Inl e \<Rightarrow> Inl e
      | Inr v \<Rightarrow> (case collect xs of Inl e \<Rightarrow> Inl e | Inr vs \<Rightarrow> Inr (v # vs)))"

text \<open>
  \<^verbatim>\<open>
  def range_flags(df):
      num_cols = [...]
      if not num_cols:
          return cudf.DataFrame()
      mins = df[num_cols].min()
      maxs = df[num_cols].max()
      out = cudf.DataFrame({"coluna": num_cols, "min": mins.values, "max": maxs.values})
      out["range"] = out["max"] - out["min"]
      out["flag_invertido"] = (out["max"] < out["min"])
      try:
          thr = float(out["range"].quantile(0.95))
          out["flag_range_muito_alto"] = out["range"] > thr
      except Exception:
          out["flag_range_muito_alto"] = False
      return out
  \<close>
  The column reductions \<open>col_min\<close> and \<open>col_max\<close> and the series quantile are the
  engine's: arguments of the model. A reduction may fail (\<open>Inl\<close>), which the script does
  not catch; a failure of the quantile (\<open>None\<close>) is caught by the \<^verbatim>\<open>except\<close> branch.
\<close>

definition build_rows :: "'v column list \<Rightarrow> rat list \<Rightarrow> rat list \<Rightarrow> range_row list" where
  "build_rows sel mins maxs =
     map (\<lambda>(c, mn, mx).
            \<lparr>rf_coluna = coluna c, rf_min = mn, rf_max = mx, rf_range = mx - mn,
             flag_invertido = (mx < mn), flag_range_muito_alto = False\<rparr>)
         (zip sel (zip mins maxs))"

definition flag_high :: "(rat \<Rightarrow> rat list \<Rightarrow> rat option) \<Rightarrow> range_row list \<Rightarrow> range_row list" where
  "flag_high quantile out =
     (case quantile (95 / 100) (map rf_range out) of
        Some thr \<Rightarrow> map (\<lambda>r. r\<lparr>flag_range_muito_alto := (rf_range r > thr)\<rparr>) out
      | None \<Rightarrow> map (\<lambda>r. r\<lparr>flag_range_muito_alto := False\<rparr>) out)"

definition range_flags ::
  "('v column \<Rightarrow> 'e + rat) \<Rightarrow> ('v column \<Rightarrow> 'e + rat) \<Rightarrow> (rat \<Rightarrow> rat list \<Rightarrow> rat option)
     \<Rightarrow> 'v dataframe \<Rightarrow> 'e + range_row list" where
  "range_flags col_min col_max quantile df =
     (let sel = num_cols df in
      if sel = [] then Inr []
      else
        case collect (map col_min sel) of
          Inl e \<Rightarrow> Inl e
        | Inr mins \<Rightarrow>
            (case collect (map col_max sel) of
               Inl e \<Rightarrow> Inl e
             | Inr maxs \<Rightarrow> Inr (flag_high quantile (build_rows sel mins maxs))))"

section \<open>Temporal ordering (P1.5) and persistence (P1.6)\<close>

text \<open>
  The scripts \<^verbatim>\<open>Resultados_Cap5.p1_5_ordenacao_temporal.py\<close> and
  \<^verbatim>\<open>Resultados_Cap5.p1_6_persistencia_dataset_mestre.py\<close> order a table by its temporal
  column. Here a table is seen row by row: each row is the cell of the designated column
  paired with the rest of the row. A timestamp is a count of nanoseconds
  (\<^verbatim>\<open>datetime64[ns]\<close>); a null cell (\<^verbatim>\<open>NaT\<close>) is \<open>None\<close>.
\<close>

type_synonym timestamp = int

record ('k, 'p) frame =
  columns :: "string list"
  rows :: "('k \<times> 'p) list"

datatype py_error =
    FileNotFoundError
  | KeyError
  | RuntimeError_conversao
  | ValueError_nulos nat
  | RuntimeError_nao_monotonica
  | ValueError_nao_crescente

subsection \<open>Series operations used by the scripts\<close>

text \<open>
  \<^verbatim>\<open>cudf.to_datetime(series)\<close>: the engine's parser \<open>parse\<close> is an argument. On a cell it
  raises (\<open>None\<close>), yields a null (\<open>Some None\<close>) or a timestamp; the conversion of the
  series raises when the parser raises on one of its cells.
\<close>

definition to_datetime :: "('r \<Rightarrow> timestamp option option) \<Rightarrow> 'r list \<Rightarrow> timestamp option list option" where
  "to_datetime parse s = those (map parse s)"

text \<open>\<^verbatim>\<open>int(series.isna().sum())\<close>\<close>

definition isna_sum :: "'a option list \<Rightarrow> nat" where
  "isna_sum s = length (filter (\<lambda>x. x = None) s)"

fun dropna :: "'a option list \<Rightarrow> 'a list" where
  "dropna [] = []"
| "dropna (None # s) = dropna s"
| "dropna (Some x # s) = x # dropna s"

text \<open>
  \<^verbatim>\<open>series.min()\<close> and \<^verbatim>\<open>series.max()\<close> skip nulls; on a series without a known value
  the result is null.
\<close>

definition series_min :: "timestamp option list \<Rightarrow> timestamp option" where
  "series_min s = (case dropna s of [] \<Rightarrow> None | t # ts \<Rightarrow> Some (fold min ts t))"

definition series_max :: "timestamp option list \<Rightarrow> timestamp option" where
  "series_max s = (case dropna s of [] \<Rightarrow> None | t # ts \<Rightarrow> Some (fold max ts t))"

text \<open>
  \<^verbatim>\<open>df.duplicated(subset=[col])\<close> with the default \<^verbatim>\<open>keep='first'\<close>: a row is marked when
  its key has occurred in an earlier row. \<^verbatim>\<open>.sum()\<close> counts the marks.
\<close>

fun duplicated_from :: "'k list \<Rightarrow> 'k list \<Rightarrow> bool list" where
  "duplicated_from seen [] = []"
| "duplicated_from seen (k # ks) = (k \<in> set seen) # duplicated_from (k # seen) ks"

definition duplicated :: "'k list \<Rightarrow> bool list" where
  "duplicated ks = duplicated_from [] ks"

definition duplicated_sum :: "'k list \<Rightarrow> nat" where
  "duplicated_sum ks = length (filter (\<lambda>b. b) (duplicated ks))"

text \<open>
  \<^verbatim>\<open>s.shift(-1)\<close> moves every value one position up and leaves a null in the last
  position; \<^verbatim>\<open>a >= b\<close> compares position by position and is null where an operand is
  null; \<^verbatim>\<open>fillna(True)\<close> replaces the nulls; \<^verbatim>\<open>all()\<close> is the conjunction.
\<close>

definition shift_neg1 :: "'a option list \<Rightarrow> 'a option list" where
  "shift_neg1 s = (if s = [] then [] else tl s @ [None])"

fun ge_null :: "timestamp option \<Rightarrow> timestamp option \<Rightarrow> bool option" where
  "ge_null (Some a) (Some b) = Some (a \<ge> b)"
| "ge_null _ _ = None"

definition ge_series :: "timestamp option list \<Rightarrow> timestamp option list \<Rightarrow> bool option list" where
  "ge_series a b = map (\<lambda>(x, y). ge_null x y) (zip a b)"

definition fillna :: "'a \<Rightarrow> 'a option list \<Rightarrow> 'a list" where
  "fillna d s = map (\<lambda>x. case x of None \<Rightarrow> d | Some v \<Rightarrow> v) s"

text \<open>The adjacency test of P1.5, and the positions it finds out of order.\<close>

definition adjacent_ok :: "timestamp option list \<Rightarrow> bool list" where
  "adjacent_ok s = fillna True (ge_series (shift_neg1 s) s)"

definition inversions :: "timestamp option list \<Rightarrow> nat" where
  "inversions s = length (filter (\<lambda>b. \<not> b) (adjacent_ok s))"

text \<open>
  \<^verbatim>\<open>series.is_monotonic_increasing\<close>: false on a series with a null, otherwise whether
  the values are in non-decreasing order.
\<close>

definition is_monotonic_increasing :: "timestamp option list \<Rightarrow> bool" where
  "is_monotonic_increasing s = (None \<notin> set s \<and> sorted (dropna s))"

subsection \<open>P1.5: \<^verbatim>\<open>main\<close>\<close>

text \<open>
  What a successful run has printed and saved: the evidence before and after the
  ordering, and the table written to \<^verbatim>\<open>args.output\<close>.
\<close>

record 'p evidence =
  dt_min :: "timestamp option"
  dt_max :: "timestamp option"
  dup_count :: nat
  dt_min2 :: "timestamp option"
  dt_max2 :: "timestamp option"
  dup_count2 :: nat
  saved :: "(timestamp option, 'p) frame"

text \<open>
  The engine's \<^verbatim>\<open>sort_values(by=col, ascending=True)\<close> acts on the rows and is the
  argument \<open>srt\<close>. \<open>input_exists\<close> is \<^verbatim>\<open>os.path.exists(args.input)\<close>, \<open>df\<close> the table
  read from it.
\<close>

definition main_p1_5 ::
  "((timestamp option \<times> 'p) list \<Rightarrow> (timestamp option \<times> 'p) list)
     \<Rightarrow> ('r \<Rightarrow> timestamp option option) \<Rightarrow> bool \<Rightarrow> string \<Rightarrow> ('r, 'p) frame
     \<Rightarrow> py_error + 'p evidence" where
  "main_p1_5 srt parse input_exists date_col df =
     (if \<not> input_exists then Inl FileNotFoundError
      else if date_col \<notin> set (columns df) then Inl KeyError
      else
        case to_datetime parse (map fst (rows df)) of
          None \<Rightarrow> Inl RuntimeError_conversao
        | Some ts \<Rightarrow>
            (let df1 = zip ts (map snd (rows df));
                 nulls = isna_sum (map fst df1)
             in
               if nulls > 0 then Inl (ValueError_nulos nulls)
               else
                 (let mn = series_min (map fst df1);
                      mx = series_max (map fst df1);
                      dups = duplicated_sum (map fst df1);
                      df_sorted = srt df1;
                      s = map fst df_sorted;
                      is_mono = list_all (\<lambda>b. b) (adjacent_ok s)
                  in
                    if \<not> is_mono then Inl RuntimeError_nao_monotonica
                    else
                      Inr \<lparr>dt_min = mn, dt_max = mx, dup_count = dups,
                           dt_min2 = series_min s, dt_max2 = series_max s,
                           dup_count2 = duplicated_sum s,
                           saved = \<lparr>columns = columns df, rows = df_sorted\<rparr>\<rparr>)))"

text \<open>
  The script's entry point catches every exception of \<^verbatim>\<open>main\<close>, prints it and exits with
  status 1. The output file exists after the run only when \<^verbatim>\<open>main\<close> reached
  \<^verbatim>\<open>to_parquet\<close>.
\<close>

record 'p process_result =
  exit_status :: nat
  reported :: "py_error option"
  output_file :: "(timestamp option, 'p) frame option"

definition script_p1_5 ::
  "((timestamp option \<times> 'p) list \<Rightarrow> (timestamp option \<times> 'p) list)
     \<Rightarrow> ('r \<Rightarrow> timestamp option option) \<Rightarrow> bool \<Rightarrow> string \<Rightarrow> ('r, 'p) frame
     \<Rightarrow> 'p process_result" where
  "script_p1_5 srt parse input_exists date_col df =
     (case main_p1_5 srt parse input_exists date_col df of
        Inl e \<Rightarrow> \<lparr>exit_status = 1, reported = Some e, output_file = None\<rparr>
      | Inr ev \<Rightarrow> \<lparr>exit_status = 0, reported = None, output_file = Some (saved ev)\<rparr>)"

subsection \<open>P1.6: the module body\<close>

text \<open>
  The candidate inputs, in priority order, below the data directory; the first one that
  exists is read. \<open>fs\<close> gives the table stored under a file name, \<open>None\<close> when there is
  no such file.
\<close>

definition CANDIDATOS_INPUT :: "string list" where
  "CANDIDATOS_INPUT =
     [''dataset_meteorologico_p1_5_ordenado.parquet'',
      ''dataset_meteorologico_p1_5.parquet'',
      ''dataset_meteorologico_ordenado.parquet'',
      ''dataset_p1_5_ordenado.parquet'']"

definition persistencia_p1_6 ::
  "((timestamp option \<times> 'p) list \<Rightarrow> (timestamp option \<times> 'p) list)
     \<Rightarrow> (string \<Rightarrow> (timestamp option, 'p) frame option)
     \<Rightarrow> py_error + (timestamp option, 'p) frame" where
  "persistencia_p1_6 srt fs =
     (case find (\<lambda>p. fs p \<noteq> None) CANDIDATOS_INPUT of
        None \<Rightarrow> Inl FileNotFoundError
      | Some p \<Rightarrow>
          (case fs p of
             None \<Rightarrow> Inl FileNotFoundError
           | Some df \<Rightarrow>
               if ''date_time'' \<notin> set (columns df) then Inl KeyError
               else
                 (let df' = df\<lparr>rows := srt (rows df)\<rparr> in
                  if \<not> is_monotonic_increasing (map fst (rows df')) then Inl ValueError_nao_crescente
                  else Inr df')))"

text \<open>
  The order in which the sort places the cells of the temporal column: known timestamps
  in ascending order, nulls after them (the primitive's default \<^verbatim>\<open>na_position\<close>).
\<close>

fun nulls_last :: "timestamp option \<Rightarrow> nat \<times> int" where
  "nulls_last None = (1, 0)"
| "nulls_last (Some t) = (0, t)"

text \<open>
  Modelled from the spec: the engine's sort primitive \<^verbatim>\<open>sort_values\<close> belongs to the
  columnar library, not to the repository. Step (4) of the canonicalization algorithm
  describes it as a stable ascending sort by the timestamp column.
\<close>

definition sort_values :: "(timestamp option \<times> 'p) list \<Rightarrow> (timestamp option \<times> 'p) list" where
  "sort_values rs = sort_key (\<lambda>r. nulls_last (fst r)) rs"

subsection \<open>A small table for evaluation\<close>

text \<open>
  Rows timestamped 3, 1, 2 and a second row timestamped 1, the column being of the
  temporal type already (the parser leaves such a cell as it is).
\<close>

definition scenario_df :: "(timestamp option, string) frame" where
  "scenario_df =
     \<lparr>columns = [''date_time'', ''station''],
      rows = [(Some 3, ''c''), (Some 1, ''a''), (Some 2, ''b''), (Some 1, ''d'')]\<rparr>"

definition scenario_ev :: "string evidence" where
  "scenario_ev =
     \<lparr>dt_min = Some 1, dt_max = Some 3, dup_count = 1,
      dt_min2 = Some 1, dt_max2 = Some 3, dup_count2 = 1,
      saved = \<lparr>columns = [''date_time'', ''station''],
                rows = [(Some 1, ''a''), (Some 1, ''d''), (Some 2, ''b''), (Some 3, ''c'')]\<rparr>\<rparr>"

text \<open>The same table with the event time of one row unknown.\<close>

definition scenario_null_df :: "(timestamp option, string) frame" where
  "scenario_null_df =
     \<lparr>columns = [''date_time'', ''station''],
      rows = [(Some 3, ''c''), (None, ''a''), (Some 2, ''b''), (Some 1, ''d'')]\<rparr>"

section \<open>Paths, clock readings and text rendering\<close>

text \<open>
  A path is the list of its components (\<^verbatim>\<open>pathlib.Path.parts\<close>); \<^verbatim>\<open>dir / name\<close> appends a
  component. A clock reading is what \<^verbatim>\<open>datetime.now()\<close> returns.
\<close>

type_synonym path = "string list"

record datetime =
  year :: nat
  month :: nat
  day :: nat
  hour :: nat
  minute :: nat
  second :: nat
  microsecond :: nat

text \<open>Decimal rendering of a natural number (\<^verbatim>\<open>str(n)\<close>), and padding with zeros.\<close>

definition digit_char :: "nat \<Rightarrow> char" where
  "digit_char d = char_of (48 + d)"

fun str_nat :: "nat \<Rightarrow> string" where
  "str_nat n = (if n < 10 then [digit_char n] else str_nat (n div 10) @ [digit_char (n mod 10)])"

definition zero_pad :: "nat \<Rightarrow> nat \<Rightarrow> string" where
  "zero_pad w n = replicate (w - length (str_nat n)) (CHR ''0'') @ str_nat n"

text \<open>\<^verbatim>\<open>datetime.now().strftime("%Y%m%d_%H%M%S")\<close>\<close>

definition strftime_run_id :: "datetime \<Rightarrow> string" where
  "strftime_run_id t =
     zero_pad 4 (year t) @ zero_pad 2 (month t) @ zero_pad 2 (day t) @ ''_'' @
     zero_pad 2 (hour t) @ zero_pad 2 (minute t) @ zero_pad 2 (second t)"

text \<open>\<^verbatim>\<open>datetime.now().isoformat(timespec="seconds")\<close>\<close>

definition isoformat_seconds :: "datetime \<Rightarrow> string" where
  "isoformat_seconds t =
     zero_pad 4 (year t) @ ''-'' @ zero_pad 2 (month t) @ ''-'' @ zero_pad 2 (day t) @ ''T'' @
     zero_pad 2 (hour t) @ '':'' @ zero_pad 2 (minute t) @ '':'' @ zero_pad 2 (second t)"

definition str_bool :: "bool \<Rightarrow> string" where
  "str_bool b = (if b then ''True'' else ''False'')"

text \<open>\<^verbatim>\<open>sep.join(xs)\<close>\<close>

fun join :: "string \<Rightarrow> string list \<Rightarrow> string" where
  "join sep [] = []"
| "join sep [x] = x"
| "join sep (x # y # ys) = x @ sep @ join sep (y # ys)"

section \<open>Confirmation of the dataset (P1.1b)\<close>

text \<open>
  The script \<^verbatim>\<open>Resultados_Cap5.p1_1b_confirmar_dataset_meteorologico.py\<close> reads the CSV and
  the Parquet encoding of the dataset and writes a schema table and a summary text. Its
  paths are module constants.
\<close>

definition ROOT :: path where
  "ROOT = [''C:'', ''PROJETO_2025_TESE'']"

definition CSV_PATH :: path where
  "CSV_PATH = ROOT @ [''resultados'', ''capitulo_5'', ''evidencias'', ''meteo_bruta_PVH_2017_full.csv'']"

definition PARQUET_PATH :: path where
  "PARQUET_PATH = ROOT @ [''resultados'', ''capitulo_5'', ''evidencias'', ''meteo_bruta_PVH_2017_full.parquet'']"

definition OUT_DIR :: path where
  "OUT_DIR = ROOT @ [''resultados'', ''capitulo_5'', ''evidencias'', ''confirmacao_p1_1b'']"

definition OUT_TXT :: path where
  "OUT_TXT = OUT_DIR @ [''confirmacao_resumo.txt'']"

definition OUT_SCHEMA :: path where
  "OUT_SCHEMA = OUT_DIR @ [''confirmacao_schema.csv'']"

text \<open>
  A file that exists: what \<^verbatim>\<open>file_info\<close> reports of it (size, modification time, SHA-256
  digest, none of which is computed here) and the table the reader loads from it.
\<close>

record 'v stored_file =
  size_bytes :: nat
  mtime_iso :: string
  sha256 :: string
  table :: "'v dataframe"

record schema_row =
  sr_coluna :: string
  dtype_parquet :: string
  dtype_csv :: string

datatype artifact = SchemaCsv "schema_row list" | SummaryTxt "string list"

record run_p1_1b =
  exit_code :: nat
  files :: "(path \<times> artifact) list"

text \<open>\<^verbatim>\<open>df.shape\<close>, \<^verbatim>\<open>df.head(5)\<close> and \<^verbatim>\<open>df.tail(5)\<close>.\<close>

definition shape :: "'v dataframe \<Rightarrow> nat \<times> nat" where
  "shape df = (n_rows df, length (cols df))"

definition head5 :: "'v dataframe \<Rightarrow> 'v dataframe" where
  "head5 df = \<lparr>n_rows = min 5 (n_rows df), cols = map (\<lambda>c. c\<lparr>cells := take 5 (cells c)\<rparr>) (cols df)\<rparr>"

definition tail5 :: "'v dataframe \<Rightarrow> 'v dataframe" where
  "tail5 df =
     \<lparr>n_rows = min 5 (n_rows df),
      cols = map (\<lambda>c. c\<lparr>cells := drop (length (cells c) - 5) (cells c)\<rparr>) (cols df)\<rparr>"

text \<open>The two verdicts of step 4.\<close>

definition same_shape :: "'v dataframe \<Rightarrow> 'v dataframe \<Rightarrow> bool" where
  "same_shape df_csv df_pq = (shape df_csv = shape df_pq)"

definition same_cols :: "'v dataframe \<Rightarrow> 'v dataframe \<Rightarrow> bool" where
  "same_cols df_csv df_pq = (map coluna (cols df_csv) = map coluna (cols df_pq))"

text \<open>
  Step 5: one schema row per Parquet column, with the dtype of the CSV column of the same
  label, or the empty string when the CSV table has no such column.
\<close>

definition schema_rows :: "'v dataframe \<Rightarrow> 'v dataframe \<Rightarrow> schema_row list" where
  "schema_rows df_csv df_pq =
     map (\<lambda>c. \<lparr>sr_coluna = coluna c, dtype_parquet = dtype c,
                dtype_csv = (case find (\<lambda>d. coluna d = coluna c) (cols df_csv) of
                               Some d \<Rightarrow> dtype d | None \<Rightarrow> [])\<rparr>)
         (cols df_pq)"

text \<open>Letters outside ASCII in the summary, as the UTF-8 bytes written to the file.\<close>

definition C_cedilha :: string where "C_cedilha = [char_of (195::nat), char_of (135::nat)]"
definition A_til :: string where "A_til = [char_of (195::nat), char_of (131::nat)]"
definition O_agudo :: string where "O_agudo = [char_of (195::nat), char_of (147::nat)]"
definition e_circunflexo :: string where "e_circunflexo = [char_of (195::nat), char_of (170::nat)]"
definition travessao :: string where
  "travessao = [char_of (226::nat), char_of (128::nat), char_of (148::nat)]"

text \<open>
  Step 6, the lines of the summary. \<open>show_path\<close> is \<^verbatim>\<open>str(path)\<close> and \<open>to_string\<close> the
  library's rendering of a table; both are arguments.
\<close>

definition summary_lines ::
  "(path \<Rightarrow> string) \<Rightarrow> ('v dataframe \<Rightarrow> string) \<Rightarrow> datetime
     \<Rightarrow> 'v stored_file \<Rightarrow> 'v stored_file \<Rightarrow> string list" where
  "summary_lines show_path to_string now csv pq =
     (let df_csv = table csv; df_pq = table pq in
      [''CONFIRMA'' @ C_cedilha @ A_til @ ''O DO DATASET METEOROL'' @ O_agudo @ ''GICO '' @ travessao @ '' P1.1b'',
       ''Timestamp: '' @ isoformat_seconds now,
       '''',
       ''[ARQUIVOS]'',
       ''CSV:     '' @ show_path CSV_PATH,
       ''  size_bytes: '' @ str_nat (size_bytes csv),
       ''  mtime:      '' @ mtime_iso csv,
       ''  sha256:     '' @ sha256 csv,
       ''PARQUET: '' @ show_path PARQUET_PATH,
       ''  size_bytes: '' @ str_nat (size_bytes pq),
       ''  mtime:      '' @ mtime_iso pq,
       ''  sha256:     '' @ sha256 pq,
       '''',
       ''[ESTRUTURA]'',
       ''Shape CSV:     N='' @ str_nat (fst (shape df_csv)) @ ''  P='' @ str_nat (snd (shape df_csv)),
       ''Shape Parquet: N='' @ str_nat (fst (shape df_pq)) @ ''  P='' @ str_nat (snd (shape df_pq)),
       ''Mesma shape (CSV vs Parquet): '' @ str_bool (same_shape df_csv df_pq),
       ''Mesmas colunas (ordem id'' @ e_circunflexo @ ''ntica): '' @ str_bool (same_cols df_csv df_pq),
       '''',
       ''[COLUNAS]'',
       ''Parquet columns:'',
       ''  '' @ join '', '' (map coluna (cols df_pq)),
       '''',
       ''[AMOSTRA '' @ travessao @ '' Parquet (head 5)]'',
       to_string (head5 df_pq),
       '''',
       ''[AMOSTRA '' @ travessao @ '' Parquet (tail 5)]'',
       to_string (tail5 df_pq),
       '''',
       ''[SCHEMA] Arquivo gerado: '' @ show_path OUT_SCHEMA])"

text \<open>
  \<^verbatim>\<open>main\<close>: status 2 when an input is missing (\<open>None\<close>); otherwise the schema table and
  the summary are written, in this order, and the status is 0.
\<close>

definition main_p1_1b ::
  "(path \<Rightarrow> string) \<Rightarrow> ('v dataframe \<Rightarrow> string) \<Rightarrow> datetime
     \<Rightarrow> 'v stored_file option \<Rightarrow> 'v stored_file option \<Rightarrow> run_p1_1b" where
  "main_p1_1b show_path to_string now csv_file pq_file =
     (case csv_file of
        None \<Rightarrow> \<lparr>exit_code = 2, files = []\<rparr>
      | Some csv \<Rightarrow>
          (case pq_file of
             None \<Rightarrow> \<lparr>exit_code = 2, files = []\<rparr>
           | Some pq \<Rightarrow>
               \<lparr>exit_code = 0,
                files = [(OUT_SCHEMA, SchemaCsv (schema_rows (table csv) (table pq))),
                         (OUT_TXT, SummaryTxt (summary_lines show_path to_string now csv pq))]\<rparr>))"


section \<open>The run of the profiling script (item xiv)\<close>

text \<open>
  \<^verbatim>\<open>save_figures\<close>: nothing is drawn without numeric columns; otherwise a histogram for
  each of the first four numeric columns and one boxplot. An exception while drawing is
  caught and logged, and the figure is left out of the result: \<open>hist_ok\<close> tells for a column
  label whether its histogram was saved, \<open>box_ok\<close> whether the boxplot was. The result is
  the list of file names saved under the figures directory.
\<close>

definition save_figures :: "(string \<Rightarrow> bool) \<Rightarrow> bool \<Rightarrow> 'v dataframe \<Rightarrow> string list" where
  "save_figures hist_ok box_ok df =
     (let sel = num_cols df in
      if sel = [] then []
      else
        map (\<lambda>c. ''hist_'' @ coluna c @ ''.png'') (filter (\<lambda>c. hist_ok (coluna c)) (take 4 sel))
        @ (if box_ok then [''boxplot_primeiras_colunas.png''] else []))"

text \<open>
  The keys read from the environment file, as paths. A key that is missing raises
  \<^verbatim>\<open>KeyError\<close>; a missing environment file or Parquet file raises \<^verbatim>\<open>FileNotFoundError\<close>.
  An error of the engine is not caught: it ends the run after the files written so far,
  which the failure carries.
\<close>

datatype 'e failure = Raised py_error | Engine 'e "path list"

record xiv_outputs =
  run_id :: string
  schema_csv :: path
  duplicatas_json :: path
  describe_csv :: "path option"
  quantis_csv :: "path option"
  ranges_csv :: "path option"
  figuras :: "string list"
  log_file :: path
  meta_file :: path
  written :: "path list"

text \<open>The engine operations that \<^verbatim>\<open>main\<close> reaches through the profiling functions.\<close>

record ('v, 'e, 'r) engine =
  eng_describe :: "'v column list \<Rightarrow> 'e + 'r list"
  eng_quantile_table :: "rat list \<Rightarrow> 'v column list \<Rightarrow> 'e + 'r list"
  eng_min :: "'v column \<Rightarrow> 'e + rat"
  eng_max :: "'v column \<Rightarrow> 'e + rat"
  eng_quantile :: "rat \<Rightarrow> rat list \<Rightarrow> rat option"
  eng_hist_ok :: "string \<Rightarrow> bool"
  eng_box_ok :: bool

definition optional_path :: "path option \<Rightarrow> path list" where
  "optional_path p = (case p of None \<Rightarrow> [] | Some q \<Rightarrow> [q])"

text \<open>
  \<^verbatim>\<open>main\<close>. \<open>env\<close> is the content of the environment file (\<open>None\<close>: no such file), \<open>now\<close> the
  clock reading taken for the run identifier, \<open>parquet\<close> the table stored under the
  Parquet path (\<open>None\<close>: no such file). Each table is written only when it has rows. The
  files are listed in the order in which they are written; the metadata and the log are
  the last ones.
\<close>

definition main_xiv ::
  "('v, 'e, 'r) engine \<Rightarrow> (string \<rightharpoonup> path) option \<Rightarrow> datetime \<Rightarrow> 'v dataframe option
     \<Rightarrow> 'e failure + xiv_outputs" where
  "main_xiv eng env now parquet =
     (case env of
        None \<Rightarrow> Inl (Raised FileNotFoundError)
      | Some e \<Rightarrow>
          (case (e ''CAP5_METEO_PARQUET'', e ''CAP5_METEO_CSV'', e ''CAP5_XIV_OUTDIR'') of
             (Some parquet_path, Some csv_path, Some outdir) \<Rightarrow>
               (let out_logs = outdir @ [''logs''];
                    out_tabs = outdir @ [''tabelas''];
                    out_figs = outdir @ [''figuras''];
                    out_meta = outdir @ [''metadata''];
                    rid = strftime_run_id now;
                    logf = out_logs @ [''run_'' @ rid @ ''.log''];
                    metaf = out_meta @ [''run_'' @ rid @ ''.json'']
                in
                  case parquet of
                    None \<Rightarrow> Inl (Raised FileNotFoundError)
                  | Some df \<Rightarrow>
                      (let sch_out = out_tabs @ [''schema_nulos_'' @ rid @ ''.csv''];
                           dup_out = out_tabs @ [''duplicatas_'' @ rid @ ''.json'']
                       in
                         case numeric_describe (eng_describe eng) df of
                           Inl x \<Rightarrow> Inl (Engine x [sch_out, dup_out])
                         | Inr desc \<Rightarrow>
                             (let desc_out = (if length desc > 0
                                    then Some (out_tabs @ [''describe_numerico_'' @ rid @ ''.csv''])
                                    else None)
                              in
                                case numeric_quantiles (eng_quantile_table eng) default_qs df of
                                  Inl x \<Rightarrow> Inl (Engine x ([sch_out, dup_out] @ optional_path desc_out))
                                | Inr qdf \<Rightarrow>
                                    (let q_out = (if length qdf > 0
                                           then Some (out_tabs @ [''quantis_numericos_'' @ rid @ ''.csv''])
                                           else None)
                                     in
                                       case range_flags (eng_min eng) (eng_max eng) (eng_quantile eng) df of
                                         Inl x \<Rightarrow>
                                           Inl (Engine x ([sch_out, dup_out] @ optional_path desc_out
                                                          @ optional_path q_out))
                                       | Inr rflags \<Rightarrow>
                                           (let rf_out = (if length rflags > 0
                                                  then Some (out_tabs @ [''ranges_flags_'' @ rid @ ''.csv''])
                                                  else None);
                                                figs = save_figures (eng_hist_ok eng) (eng_box_ok eng) df
                                            in
                                              Inr \<lparr>run_id = rid,
                                                   schema_csv = sch_out,
                                                   duplicatas_json = dup_out,
                                                   describe_csv = desc_out,
                                                   quantis_csv = q_out,
                                                   ranges_csv = rf_out,
                                                   figuras = figs,
                                                   log_file = logf,
                                                   meta_file = metaf,
                                                   written =
                                                     [sch_out, dup_out] @ optional_path desc_out
                                                     @ optional_path q_out @ optional_path rf_out
                                                     @ map (\<lambda>n. out_figs @ [n]) figs
                                                     @ [metaf, logf]\<rparr>)))))
           | _ \<Rightarrow> Inl (Raised KeyError)))"

text \<open>
  The artifacts of a run whose file name carries the run identifier: the tables, the
  metadata and the log.
\<close>

definition keyed_paths :: "xiv_outputs \<Rightarrow> path list" where
  "keyed_paths out =
     [schema_csv out, duplicatas_json out] @ optional_path (describe_csv out)
     @ optional_path (quantis_csv out) @ optional_path (ranges_csv out)
     @ [meta_file out, log_file out]"


section \<open>Reference engine operations for evaluation\<close>

text \<open>
  Cells of a table, and reference versions of the engine's reductions and of its quantile
  with linear interpolation between order statistics, used to evaluate the scripts on
  concrete tables. A reduction over a column without a number has no value.
\<close>

datatype cell = Num rat | Txt string | Null

fun nums :: "cell list \<Rightarrow> rat list" where
  "nums [] = []"
| "nums (Num x # cs) = x # nums cs"
| "nums (_ # cs) = nums cs"

definition cells_min :: "cell column \<Rightarrow> unit + rat" where
  "cells_min c = (case nums (cells c) of [] \<Rightarrow> Inl () | x # xs \<Rightarrow> Inr (fold min xs x))"

definition cells_max :: "cell column \<Rightarrow> unit + rat" where
  "cells_max c = (case nums (cells c) of [] \<Rightarrow> Inl () | x # xs \<Rightarrow> Inr (fold max xs x))"

definition quantile_linear :: "rat \<Rightarrow> rat list \<Rightarrow> rat option" where
  "quantile_linear q xs =
     (if xs = [] \<or> q < 0 \<or> 1 < q then None
      else
        (let s = sort xs;
             pos = q * of_nat (length s - 1);
             lo = nat \<lfloor>pos\<rfloor>;
             hi = min (lo + 1) (length s - 1);
             frac = pos - of_nat lo
         in Some (s ! lo + (s ! hi - s ! lo) * frac)))"

text \<open>
  A table with three numeric columns, a text column, a temporal column and a column of
  intervals, whose dtype name mentions \<^verbatim>\<open>int64\<close>.
\<close>

definition meteo_df :: "cell dataframe" where
  "meteo_df =
     \<lparr>n_rows = 3,
      cols =
        [\<lparr>coluna = ''date_time'', dtype = ''datetime64[ns]'', cells = [Num 1, Num 2, Num 3]\<rparr>,
         \<lparr>coluna = ''temp'', dtype = ''float64'', cells = [Num 20, Num 25, Num 30]\<rparr>,
         \<lparr>coluna = ''press'', dtype = ''float32'', cells = [Num 1000, Null, Num 1010]\<rparr>,
         \<lparr>coluna = ''rain'', dtype = ''int64'', cells = [Num 0, Num 200, Num 7]\<rparr>,
         \<lparr>coluna = ''station'', dtype = ''object'', cells = [Txt ''a'', Txt ''b'', Txt ''c'']\<rparr>,
         \<lparr>coluna = ''span'', dtype = ''interval[int64, right]'', cells = [Null, Null, Null]\<rparr>]\<rparr>"

text \<open>The same table without its numeric columns and without the interval column.\<close>

definition text_df :: "cell dataframe" where
  "text_df =
     \<lparr>n_rows = 3,
      cols =
        [\<lparr>coluna = ''date_time'', dtype = ''datetime64[ns]'', cells = [Num 1, Num 2, Num 3]\<rparr>,
         \<lparr>coluna = ''station'', dtype = ''object'', cells = [Txt ''a'', Txt ''b'', Txt ''c'']\<rparr>]\<rparr>"


definition ref_engine :: "(cell, unit, string) engine" where
  "ref_engine =
     \<lparr>eng_describe = (\<lambda>sel. Inr [''count'', ''mean'', ''std'', ''min'', ''25%'', ''50%'', ''75%'', ''max'']),
      eng_quantile_table = (\<lambda>qs sel. Inr (map (\<lambda>q. ''q'') qs)),
      eng_min = cells_min,
      eng_max = cells_max,
      eng_quantile = quantile_linear,
      eng_hist_ok = (\<lambda>c. True),
      eng_box_ok = True\<rparr>"


text \<open>The table \<open>meteo_df\<close> without its column of intervals.\<close>

definition meteo_num_df :: "cell dataframe" where
  "meteo_num_df = meteo_df\<lparr>cols := butlast (cols meteo_df)\<rparr>"

text \<open>An engine every operation of which fails, and a content of the environment file.\<close>

definition failing_engine :: "(cell, unit, string) engine" where
  "failing_engine =
     \<lparr>eng_describe = (\<lambda>sel. Inl ()),
      eng_quantile_table = (\<lambda>qs sel. Inl ()),
      eng_min = (\<lambda>c. Inl ()),
      eng_max = (\<lambda>c. Inl ()),
      eng_quantile = (\<lambda>q xs. None),
      eng_hist_ok = (\<lambda>c. False),
      eng_box_ok = False\<rparr>"

definition example_env :: "string \<rightharpoonup> path" where
  "example_env =
     [''CAP5_METEO_PARQUET'' \<mapsto> [''data'', ''meteo.parquet''],
      ''CAP5_METEO_CSV'' \<mapsto> [''data'', ''meteo.csv''],
      ''CAP5_XIV_OUTDIR'' \<mapsto> [''resultados'', ''xiv'']]"

definition morning :: datetime where
  "morning = \<lparr>year = 2025, month = 3, day = 7, hour = 9, minute = 5, second = 0, microsecond = 120\<rparr>"

definition evening :: datetime where
  "evening = \<lparr>year = 2025, month = 3, day = 7, hour = 21, minute = 40, second = 13, microsecond = 5\<rparr>"


text \<open>
  Two encodings of one dataset with the same numbers of rows and columns, one column of
  the Parquet encoding being named differently.
\<close>

definition renamed_df :: "cell dataframe" where
  "renamed_df =
     \<lparr>n_rows = 3,
      cols =
        [\<lparr>coluna = ''date_time'', dtype = ''datetime64[ns]'', cells = [Num 1, Num 2, Num 3]\<rparr>,
         \<lparr>coluna = ''estacao'', dtype = ''object'', cells = [Txt ''a'', Txt ''b'', Txt ''c'']\<rparr>]\<rparr>"

definition csv_stored :: "cell stored_file" where
  "csv_stored = \<lparr>size_bytes = 120, mtime_iso = ''2025-03-01T08:00:00'', sha256 = ''ab12'', table = text_df\<rparr>"

definition parquet_stored :: "cell stored_file" where
  "parquet_stored = \<lparr>size_bytes = 96, mtime_iso = ''2025-03-01T08:00:02'', sha256 = ''cd34'', table = renamed_df\<rparr>"


text \<open>
  The fields of a clock reading are in the ranges of a calendar date and a time of day
  (the library's \<^verbatim>\<open>datetime\<close> admits no other), and two readings fall in the same second
  when they agree in every field down to the second.
\<close>

definition valid_clock :: "datetime \<Rightarrow> bool" where
  "valid_clock t \<longleftrightarrow>
     1 \<le> year t \<and> year t \<le> 9999 \<and> 1 \<le> month t \<and> month t \<le> 12 \<and> 1 \<le> day t \<and> day t \<le> 31 \<and>
     hour t < 24 \<and> minute t < 60 \<and> second t < 60 \<and> microsecond t < 1000000"

definition same_second :: "datetime \<Rightarrow> datetime \<Rightarrow> bool" where
  "same_second t t' \<longleftrightarrow>
     year t = year t' \<and> month t = month t' \<and> day t = day t' \<and>
     hour t = hour t' \<and> minute t = minute t' \<and> second t = second t'"

text \<open>The number that a string of decimal digits denotes.\<close>

definition digits_value :: "string \<Rightarrow> nat" where
  "digits_value s = foldl (\<lambda>a c. 10 * a + (of_char c - 48)) 0 s"


text \<open>
  The kinds of artifact whose file name carries the run identifier, and the path of each
  kind below an output directory, as \<^verbatim>\<open>main\<close> builds it.
\<close>

datatype keyed_kind = Schema | Duplicatas | Describe | Quantis | Ranges | Metadata | Log

fun keyed_path :: "path \<Rightarrow> string \<Rightarrow> keyed_kind \<Rightarrow> path" where
  "keyed_path outdir r Schema = outdir @ [''tabelas'', ''schema_nulos_'' @ r @ ''.csv'']"
| "keyed_path outdir r Duplicatas = outdir @ [''tabelas'', ''duplicatas_'' @ r @ ''.json'']"
| "keyed_path outdir r Describe = outdir @ [''tabelas'', ''describe_numerico_'' @ r @ ''.csv'']"
| "keyed_path outdir r Quantis = outdir @ [''tabelas'', ''quantis_numericos_'' @ r @ ''.csv'']"
| "keyed_path outdir r Ranges = outdir @ [''tabelas'', ''ranges_flags_'' @ r @ ''.csv'']"
| "keyed_path outdir r Metadata = outdir @ [''metadata'', ''run_'' @ r @ ''.json'']"
| "keyed_path outdir r Log = outdir @ [''logs'', ''run_'' @ r @ ''.log'']"


text \<open>
  What a run of the profiling script has left on disk, whether it completed or was ended
  by an error: all its files, and those among them whose name carries the run
  identifier. A run that stops before the table is loaded has written nothing.
\<close>

definition files_written :: "'e failure + xiv_outputs \<Rightarrow> path list" where
  "files_written res =
     (case res of
        Inl (Raised e) \<Rightarrow> []
      | Inl (Engine x ps) \<Rightarrow> ps
      | Inr out \<Rightarrow> written out)"

definition keyed_written :: "'e failure + xiv_outputs \<Rightarrow> path list" where
  "keyed_written res =
     (case res of
        Inl (Raised e) \<Rightarrow> []
      | Inl (Engine x ps) \<Rightarrow> ps
      | Inr out \<Rightarrow> keyed_paths out)"


section \<open>Properties of the numeric selection\<close>

lemma str_contains_iff: "str_contains s t \<longleftrightarrow> (\<exists>p q. s = p @ t @ q)"
proof (induction s)
  case Nil
  then show ?case by auto
next
  case (Cons c s)
  show ?case
  proof
    assume "str_contains (c # s) t"
    then consider "prefix t (c # s)" | "str_contains s t" by auto
    then show "\<exists>p q. c # s = p @ t @ q"
    proof cases
      case 1
      then obtain q where "c # s = t @ q" by (auto simp: prefix_def)
      then have "c # s = [] @ t @ q" by simp
      then show ?thesis by blast
    next
      case 2
      with Cons.IH obtain p q where "s = p @ t @ q" by blast
      then have "c # s = (c # p) @ t @ q" by simp
      then show ?thesis by blast
    qed
  next
    assume "\<exists>p q. c # s = p @ t @ q"
    then obtain p q where pq: "c # s = p @ t @ q" by blast
    show "str_contains (c # s) t"
    proof (cases p)
      case Nil
      with pq have "prefix t (c # s)" by (simp add: prefix_def)
      then show ?thesis by simp
    next
      case (Cons a p')
      with pq have "s = p' @ t @ q" by simp
      with Cons.IH have "str_contains s t" by blast
      then show ?thesis by simp
    qed
  qed
qed

lemma is_numeric_dtype_iff:
  "is_numeric_dtype s \<longleftrightarrow>
     (\<exists>t \<in> {''int'', ''float'', ''uint'', ''decimal''}. \<exists>p q. s = p @ t @ q)"
  unfolding is_numeric_dtype_def numeric_markers_def list_ex_iff str_contains_iff
  by simp

section \<open>The adjacency check of the temporal ordering\<close>

lemma those_length: "those xs = Some ys \<Longrightarrow> length ys = length xs"
  by (induction xs arbitrary: ys) (auto split: option.splits)

lemma to_datetime_length: "to_datetime parse s = Some ts \<Longrightarrow> length ts = length s"
  unfolding to_datetime_def by (drule those_length) simp

lemma isna_sum_zero_iff: "isna_sum s = 0 \<longleftrightarrow> None \<notin> set s"
  unfolding isna_sum_def by (induction s) auto

lemma length_adjacent_ok: "length (adjacent_ok s) = length s"
  unfolding adjacent_ok_def fillna_def ge_series_def shift_neg1_def by (cases s) auto

lemma nth_adjacent_ok:
  assumes "Suc i < length s"
  shows "adjacent_ok s ! i = (case ge_null (s ! Suc i) (s ! i) of None \<Rightarrow> True | Some b \<Rightarrow> b)"
proof -
  from assms have ne: "s \<noteq> []" by auto
  from assms have i: "i < length (tl s)" by simp
  have "(tl s @ [None]) ! i = tl s ! i" using i by (simp add: nth_append)
  also have "\<dots> = s ! Suc i" using i by (simp add: nth_tl)
  finally have sh: "shift_neg1 s ! i = s ! Suc i" using ne by (simp add: shift_neg1_def)
  have len: "i < length (zip (shift_neg1 s) s)" using assms ne by (simp add: shift_neg1_def)
  show ?thesis
    unfolding adjacent_ok_def fillna_def ge_series_def
    using len sh assms by (simp add: shift_neg1_def)
qed

lemma adjacent_ok_known:
  assumes ok: "list_all (\<lambda>b. b) (adjacent_ok s)"
    and i: "Suc i < length s"
    and a: "s ! i = Some a" and b: "s ! Suc i = Some b"
  shows "a \<le> b"
proof -
  from i have "i < length (adjacent_ok s)" by (simp add: length_adjacent_ok)
  with ok have "adjacent_ok s ! i" by (simp add: list_all_length)
  then show ?thesis using nth_adjacent_ok [OF i] a b by simp
qed

lemma map_Some_dropna: "None \<notin> set s \<Longrightarrow> map Some (dropna s) = s"
  by (induction s rule: dropna.induct) auto

lemma sorted_dropna_known:
  assumes "None \<notin> set s" "sorted (dropna s)" "Suc i < length s"
  shows "\<exists>a b. s ! i = Some a \<and> s ! Suc i = Some b \<and> a \<le> b"
proof -
  from assms(1) have eq: "map Some (dropna s) = s" by (rule map_Some_dropna)
  then have len: "length (dropna s) = length s" by (metis length_map)
  have "dropna s ! i \<le> dropna s ! Suc i"
    using assms(2,3) len by (simp add: sorted_iff_nth_mono)
  moreover have "s ! i = Some (dropna s ! i)" "s ! Suc i = Some (dropna s ! Suc i)"
    using eq assms(3) len by (metis Suc_lessD nth_map)+
  ultimately show ?thesis by blast
qed

lemma inversions_zero_iff: "inversions s = 0 \<longleftrightarrow> list_all (\<lambda>b. b) (adjacent_ok s)"
  unfolding inversions_def by (induction "adjacent_ok s") (auto simp: list_all_iff filter_empty_conv)

lemma set_sort_values: "set (sort_values xs) = set xs"
  by (simp add: sort_values_def)

lemma scenario_run: "main_p1_5 sort_values Some True ''date_time'' scenario_df = Inr scenario_ev"
  by code_simp

text \<open>
  Claim C1. After the conversion and the ascending sort the table is non-decreasing in
  the temporal column: every adjacent pair of rows of a table that P1.5 saves, and of a
  table that P1.6 persists, has timestamps \<open>a \<le> b\<close>. The scripts establish this by their
  own test of the sorted table and not by trusting the sort: the statement holds for
  whatever the engine's sort returns, as long as it returns rows of the table it was
  given (P1.5; P1.6 needs not even that), and a sorted table in which the test of P1.5
  finds an inversion ends the run with the error of that test.
\<close>

theorem sorted_output_nondecreasing:
  assumes kept: "\<And>xs. set (srt xs) \<subseteq> set xs"
  shows "(main_p1_5 srt parse input_exists date_col df = Inr ev \<longrightarrow>
            (\<forall>i. Suc i < length (rows (saved ev)) \<longrightarrow>
               (\<exists>a b. fst (rows (saved ev) ! i) = Some a \<and>
                      fst (rows (saved ev) ! Suc i) = Some b \<and> a \<le> b)))
       \<and> (persistencia_p1_6 srt' fs = Inr out \<longrightarrow>
            (\<forall>i. Suc i < length (rows out) \<longrightarrow>
               (\<exists>a b. fst (rows out ! i) = Some a \<and> fst (rows out ! Suc i) = Some b \<and> a \<le> b)))
       \<and> (input_exists \<and> date_col \<in> set (columns df) \<and>
            to_datetime parse (map fst (rows df)) = Some ts \<and> isna_sum ts = 0 \<and>
            0 < inversions (map fst (srt (zip ts (map snd (rows df))))) \<longrightarrow>
            main_p1_5 srt parse input_exists date_col df = Inl RuntimeError_nao_monotonica)"
proof (intro conjI impI allI)
  fix i
  assume run: "main_p1_5 srt parse input_exists date_col df = Inr ev"
    and i: "Suc i < length (rows (saved ev))"
  from run obtain ts' where conv: "to_datetime parse (map fst (rows df)) = Some ts'"
    by (auto simp: main_p1_5_def split: if_splits option.splits)
  define df1 where "df1 = zip ts' (map snd (rows df))"
  from run conv have nonull: "isna_sum (map fst df1) = 0"
    and mono: "list_all (\<lambda>b. b) (adjacent_ok (map fst (srt df1)))"
    and out: "rows (saved ev) = srt df1"
    by (auto simp: main_p1_5_def Let_def df1_def split: if_splits)
  from nonull have "None \<notin> fst ` set df1" by (simp add: isna_sum_zero_iff)
  with kept [of df1] have known: "None \<notin> fst ` set (srt df1)" by blast
  let ?s = "map fst (srt df1)"
  from i out have i': "Suc i < length ?s" by simp
  from known i' obtain a where a: "?s ! i = Some a"
    by (metis Suc_lessD list.set_map nth_mem option.exhaust)
  from known i' obtain b where b: "?s ! Suc i = Some b"
    by (metis list.set_map nth_mem option.exhaust)
  from adjacent_ok_known [OF mono i' a b] have "a \<le> b" .
  with a b i' out
  show "\<exists>a b. fst (rows (saved ev) ! i) = Some a \<and> fst (rows (saved ev) ! Suc i) = Some b \<and> a \<le> b"
    by simp
next
  fix i
  assume run: "persistencia_p1_6 srt' fs = Inr out" and i: "Suc i < length (rows out)"
  from run have "is_monotonic_increasing (map fst (rows out))"
    by (auto simp: persistencia_p1_6_def Let_def split: option.splits if_splits)
  then have "None \<notin> set (map fst (rows out))" "sorted (dropna (map fst (rows out)))"
    by (simp_all add: is_monotonic_increasing_def)
  from sorted_dropna_known [OF this, of i] i
  show "\<exists>a b. fst (rows out ! i) = Some a \<and> fst (rows out ! Suc i) = Some b \<and> a \<le> b"
    by simp
next
  assume h: "input_exists \<and> date_col \<in> set (columns df) \<and>
      to_datetime parse (map fst (rows df)) = Some ts \<and> isna_sum ts = 0 \<and>
      0 < inversions (map fst (srt (zip ts (map snd (rows df)))))"
  then have len: "length ts = length (rows df)"
    using to_datetime_length [of parse "map fst (rows df)" ts] by simp
  then have fst_zip: "map fst (zip ts (map snd (rows df))) = ts" by simp
  from h have "\<not> list_all (\<lambda>b. b) (adjacent_ok (map fst (srt (zip ts (map snd (rows df))))))"
    using inversions_zero_iff [of "map fst (srt (zip ts (map snd (rows df))))"] by simp
  with h fst_zip
  show "main_p1_5 srt parse input_exists date_col df = Inl RuntimeError_nao_monotonica"
    by (simp add: main_p1_5_def Let_def)
qed

theorem sorted_output_nondecreasing_witness:
  "main_p1_5 sort_values Some True ''date_time'' scenario_df = Inr scenario_ev
   \<and> rows (saved scenario_ev) = [(Some 1, ''a''), (Some 1, ''d''), (Some 2, ''b''), (Some 3, ''c'')]
   \<and> (\<exists>a b. fst (rows (saved scenario_ev) ! 2) = Some a \<and>
             fst (rows (saved scenario_ev) ! Suc 2) = Some b \<and> a \<le> b)
   \<and> main_p1_5 rev Some True ''date_time'' scenario_df = Inl RuntimeError_nao_monotonica"
proof -
  have kept: "\<And>xs :: (timestamp option \<times> string) list. set (sort_values xs) \<subseteq> set xs"
    by (simp add: set_sort_values)
  have len: "Suc 2 < length (rows (saved scenario_ev))"
    by (simp add: scenario_ev_def)
  have adj: "\<exists>a b. fst (rows (saved scenario_ev) ! 2) = Some a \<and>
      fst (rows (saved scenario_ev) ! Suc 2) = Some b \<and> a \<le> b"
    using sorted_output_nondecreasing [OF kept, THEN conjunct1, rule_format, OF scenario_run len] .
  have kept_rev: "\<And>xs :: (timestamp option \<times> string) list. set (rev xs) \<subseteq> set xs"
    by simp
  have pre: "True \<and> ''date_time'' \<in> set (columns scenario_df) \<and>
      to_datetime Some (map fst (rows scenario_df)) = Some [Some 3, Some 1, Some 2, Some 1] \<and>
      isna_sum [Some 3, Some 1, Some 2, Some (1::int)] = 0 \<and>
      0 < inversions (map fst (rev (zip [Some 3, Some 1, Some 2, Some 1] (map snd (rows scenario_df)))))"
    by (simp add: scenario_df_def to_datetime_def isna_sum_def inversions_def adjacent_ok_def
        fillna_def ge_series_def shift_neg1_def)
  have bad: "main_p1_5 rev Some True ''date_time'' scenario_df = Inl RuntimeError_nao_monotonica"
    using sorted_output_nondecreasing [OF kept_rev, THEN conjunct2, THEN conjunct2, rule_format, OF pre] .
  show ?thesis using scenario_run adj bad by (simp add: scenario_ev_def)
qed

section \<open>Null timestamps\<close>

text \<open>
  Claim C2. When the temporal column converts but holds a null afterwards, P1.5 ends
  with the error that carries the number of null rows; the result is the same whatever
  the sort primitive is, so the error precedes any sort; the process exits with status 1
  and no output file is written.
\<close>

theorem null_timestamp_is_fatal:
  assumes ex: "input_exists"
    and col: "date_col \<in> set (columns df)"
    and conv: "to_datetime parse (map fst (rows df)) = Some ts"
    and null: "None \<in> set ts"
  shows "main_p1_5 srt parse input_exists date_col df = Inl (ValueError_nulos (isna_sum ts))
       \<and> isna_sum ts = card {i. i < length ts \<and> ts ! i = None}
       \<and> 0 < isna_sum ts
       \<and> script_p1_5 srt parse input_exists date_col df =
           \<lparr>exit_status = 1, reported = Some (ValueError_nulos (isna_sum ts)), output_file = None\<rparr>"
proof -
  from conv have len: "length ts = length (rows df)"
    using to_datetime_length [of parse "map fst (rows df)" ts] by simp
  then have fst_zip: "map fst (zip ts (map snd (rows df))) = ts" by simp
  from null have pos: "0 < isna_sum ts"
    using isna_sum_zero_iff [of ts] by auto
  have run: "main_p1_5 srt parse input_exists date_col df = Inl (ValueError_nulos (isna_sum ts))"
    using ex col conv pos by (simp add: main_p1_5_def Let_def fst_zip)
  have count: "isna_sum ts = card {i. i < length ts \<and> ts ! i = None}"
    unfolding isna_sum_def by (rule length_filter_conv_card)
  from run have "script_p1_5 srt parse input_exists date_col df =
      \<lparr>exit_status = 1, reported = Some (ValueError_nulos (isna_sum ts)), output_file = None\<rparr>"
    by (simp add: script_p1_5_def)
  with run count pos show ?thesis by simp
qed

theorem null_timestamp_is_fatal_witness:
  "main_p1_5 sort_values Some True ''date_time'' scenario_null_df = Inl (ValueError_nulos 1)
   \<and> script_p1_5 sort_values Some True ''date_time'' scenario_null_df =
       \<lparr>exit_status = 1, reported = Some (ValueError_nulos 1), output_file = None\<rparr>"
proof -
  have col: "''date_time'' \<in> set (columns scenario_null_df)"
    by (simp add: scenario_null_df_def)
  have conv: "to_datetime Some (map fst (rows scenario_null_df)) = Some [Some 3, None, Some 2, Some 1]"
    by (simp add: scenario_null_df_def to_datetime_def)
  have null: "None \<in> set [Some 3, None, Some 2, Some (1::int)]" by simp
  have n: "isna_sum [Some 3, None, Some 2, Some (1::int)] = 1" by (simp add: isna_sum_def)
  from null_timestamp_is_fatal [OF TrueI col conv null, of sort_values]
  show ?thesis by (simp add: n)
qed

section \<open>The reference sort and the quantities it preserves\<close>

lemma nulls_last_inj: "nulls_last a = nulls_last b \<longleftrightarrow> a = b"
  by (cases a; cases b) auto

lemma sort_values_stable:
  "filter (\<lambda>r. fst r = t) (sort_values rs) = filter (\<lambda>r. fst r = t) rs"
proof -
  have "filter (\<lambda>r. nulls_last (fst r) = nulls_last t) (sort_key (\<lambda>r. nulls_last (fst r)) rs)
      = filter (\<lambda>r. nulls_last (fst r) = nulls_last t) rs"
    by (rule sort_key_stable)
  then show ?thesis by (simp add: nulls_last_inj sort_values_def)
qed

lemma mset_sort_values: "mset (sort_values rs) = mset rs"
  by (simp add: sort_values_def)

lemma sorted_nulls_last:
  "None \<notin> set s \<Longrightarrow> sorted (map nulls_last s) \<longleftrightarrow> sorted (dropna s)"
proof (induction s rule: dropna.induct)
  case 1
  then show ?case by simp
next
  case (2 s)
  then show ?case by simp
next
  case (3 x s)
  then have nn: "None \<notin> set s" by simp
  have "(\<forall>y\<in>set s. nulls_last (Some x) \<le> nulls_last y) \<longleftrightarrow> (\<forall>y\<in>set (dropna s). x \<le> y)"
  proof -
    from nn have "set s = Some ` set (dropna s)"
      by (metis map_Some_dropna set_map)
    then show ?thesis by (auto simp: less_eq_prod_def)
  qed
  with 3 nn show ?case by simp
qed

lemma sort_values_sorted_id:
  assumes "None \<notin> fst ` set rs" "sorted (dropna (map fst rs))"
  shows "sort_values rs = rs"
proof -
  from assms have "sorted (map nulls_last (map fst rs))"
    using sorted_nulls_last [of "map fst rs"] by simp
  then have "sorted (map (\<lambda>r. nulls_last (fst r)) rs)" by (simp add: comp_def)
  then show ?thesis unfolding sort_values_def by (rule sort_key_id_if_sorted)
qed

lemma sorted_sort_values:
  assumes "None \<notin> fst ` set rs"
  shows "sorted (dropna (map fst (sort_values rs)))"
proof -
  have "sorted (map (\<lambda>r. nulls_last (fst r)) (sort_values rs))"
    unfolding sort_values_def by (rule sorted_sort_key)
  then have "sorted (map nulls_last (map fst (sort_values rs)))" by (simp add: comp_def)
  moreover from assms have "None \<notin> set (map fst (sort_values rs))"
    by (simp add: set_sort_values)
  ultimately show ?thesis using sorted_nulls_last by blast
qed

lemma adjacent_ok_sorted:
  assumes nn: "None \<notin> set s" and srt: "sorted (dropna s)"
  shows "list_all (\<lambda>b. b) (adjacent_ok s)"
proof -
  have "adjacent_ok s ! i" if i: "i < length s" for i
  proof (cases "Suc i < length s")
    case True
    from sorted_dropna_known [OF nn srt True] obtain a b
      where "s ! i = Some a" "s ! Suc i = Some b" "a \<le> b" by blast
    then show ?thesis using nth_adjacent_ok [OF True] by simp
  next
    case False
    with i have last: "Suc i = length s" by simp
    then have ne: "s \<noteq> []" by auto
    from last have "length (tl s) = i" by simp
    then have "(tl s @ [None]) ! i = None" by (metis nth_append_length)
    then have "shift_neg1 s ! i = None"
      using ne by (simp add: shift_neg1_def)
    moreover have "i < length (zip (shift_neg1 s) s)" using i ne by (simp add: shift_neg1_def)
    ultimately show ?thesis
      unfolding adjacent_ok_def fillna_def ge_series_def using i by simp
  qed
  then show ?thesis by (simp add: list_all_length length_adjacent_ok)
qed


lemma set_dropna: "set (dropna s) = {x. Some x \<in> set s}"
  by (induction s rule: dropna.induct) auto

lemma series_min_set: "set s = set s' \<Longrightarrow> series_min s = series_min s'"
proof -
  assume eq: "set s = set s'"
  have m: "series_min u = (if dropna u = [] then None else Some (Min (set (dropna u))))" for u
  proof (cases "dropna u")
    case Nil
    then show ?thesis by (simp add: series_min_def)
  next
    case (Cons a as)
    have "fold min as a = Min (set (a # as))" by (simp only: Min.set_eq_fold)
    with Cons show ?thesis by (simp add: series_min_def)
  qed
  from eq have "set (dropna s) = set (dropna s')" by (simp add: set_dropna)
  then show ?thesis unfolding m by (metis set_empty)
qed

lemma series_max_set: "set s = set s' \<Longrightarrow> series_max s = series_max s'"
proof -
  assume eq: "set s = set s'"
  have m: "series_max u = (if dropna u = [] then None else Some (Max (set (dropna u))))" for u
  proof (cases "dropna u")
    case Nil
    then show ?thesis by (simp add: series_max_def)
  next
    case (Cons a as)
    have "fold max as a = Max (set (a # as))" by (simp only: Max.set_eq_fold)
    with Cons show ?thesis by (simp add: series_max_def)
  qed
  from eq have "set (dropna s) = set (dropna s')" by (simp add: set_dropna)
  then show ?thesis unfolding m by (metis set_empty)
qed

lemma duplicated_from_count:
  "length (filter (\<lambda>b. b) (duplicated_from seen ks)) + card (set ks - set seen) = length ks"
proof (induction ks arbitrary: seen)
  case Nil
  then show ?case by simp
next
  case (Cons k ks)
  define n where "n = length (filter (\<lambda>b. b) (duplicated_from (k # seen) ks))"
  define c where "c = card (set ks - set (k # seen))"
  from Cons.IH [of "k # seen"] have ih: "n + c = length ks" by (simp add: n_def c_def)
  show ?case
  proof (cases "k \<in> set seen")
    case True
    then have "set (k # ks) - set seen = set ks - set (k # seen)" by auto
    then have "card (set (k # ks) - set seen) = c" by (simp only: c_def)
    moreover from True have "length (filter (\<lambda>b. b) (duplicated_from seen (k # ks))) = Suc n"
      by (simp add: n_def)
    ultimately show ?thesis using ih by (simp only: length_Cons add_Suc)
  next
    case False
    then have eq: "set (k # ks) - set seen = insert k (set ks - set (k # seen))" by auto
    have "card (insert k (set ks - set (k # seen))) = Suc (card (set ks - set (k # seen)))"
      by (rule card_insert_disjoint) simp_all
    with eq have "card (set (k # ks) - set seen) = Suc c"
      by (simp only: c_def)
    moreover from False have "length (filter (\<lambda>b. b) (duplicated_from seen (k # ks))) = n"
      by (simp add: n_def)
    ultimately show ?thesis using ih by (simp only: length_Cons add_Suc_right)
  qed
qed

lemma duplicated_sum_eq: "duplicated_sum ks + card (set ks) = length ks"
  using duplicated_from_count [of "[]" ks] by (simp add: duplicated_sum_def duplicated_def)

lemma duplicated_sum_mset:
  assumes "mset ks = mset ks'"
  shows "duplicated_sum ks = duplicated_sum ks'"
proof -
  from assms have "set ks = set ks'" "length ks = length ks'"
    by (metis mset_eq_setD, metis size_mset)
  with duplicated_sum_eq [of ks] duplicated_sum_eq [of ks'] show ?thesis by simp
qed

lemma main_p1_5_sort_values:
  assumes ex: "input_exists"
    and col: "date_col \<in> set (columns df)"
    and conv: "to_datetime parse (map fst (rows df)) = Some ts"
    and nonull: "None \<notin> set ts"
  shows "main_p1_5 sort_values parse input_exists date_col df =
     Inr \<lparr>dt_min = series_min ts, dt_max = series_max ts, dup_count = duplicated_sum ts,
          dt_min2 = series_min (map fst (sort_values (zip ts (map snd (rows df))))),
          dt_max2 = series_max (map fst (sort_values (zip ts (map snd (rows df))))),
          dup_count2 = duplicated_sum (map fst (sort_values (zip ts (map snd (rows df))))),
          saved = \<lparr>columns = columns df, rows = sort_values (zip ts (map snd (rows df)))\<rparr>\<rparr>"
proof -
  define df1 where "df1 = zip ts (map snd (rows df))"
  from conv have len: "length ts = length (rows df)"
    using to_datetime_length [of parse "map fst (rows df)" ts] by simp
  then have fst_zip: "map fst df1 = ts" by (simp add: df1_def)
  from nonull have zero: "isna_sum ts = 0" by (simp add: isna_sum_zero_iff)
  from nonull fst_zip have "None \<notin> fst ` set df1" by (metis set_map)
  then have nn: "None \<notin> set (map fst (sort_values df1))"
    and so: "sorted (dropna (map fst (sort_values df1)))"
    by (simp_all add: set_sort_values sorted_sort_values)
  from adjacent_ok_sorted [OF nn so]
  have mono: "list_all (\<lambda>b. b) (adjacent_ok (map fst (sort_values df1)))" .
  show ?thesis
    using ex col conv zero mono fst_zip
    by (simp add: main_p1_5_def Let_def df1_def [symmetric])
qed

lemma main_p1_5_Inr_D:
  assumes "main_p1_5 srt parse input_exists date_col df = Inr ev"
  shows "input_exists \<and> date_col \<in> set (columns df) \<and>
         (\<exists>ts. to_datetime parse (map fst (rows df)) = Some ts \<and> None \<notin> set ts \<and>
               length ts = length (rows df) \<and>
               rows (saved ev) = srt (zip ts (map snd (rows df))) \<and>
               columns (saved ev) = columns df)"
proof -
  from assms have ex: "input_exists" and col: "date_col \<in> set (columns df)"
    by (auto simp: main_p1_5_def split: if_splits)
  from assms obtain ts where conv: "to_datetime parse (map fst (rows df)) = Some ts"
    by (auto simp: main_p1_5_def split: if_splits option.splits)
  from conv have len: "length ts = length (rows df)"
    using to_datetime_length [of parse "map fst (rows df)" ts] by simp
  then have fst_zip: "map fst (zip ts (map snd (rows df))) = ts" by simp
  from assms conv fst_zip have "isna_sum ts = 0"
    and "rows (saved ev) = srt (zip ts (map snd (rows df)))"
    and "columns (saved ev) = columns df"
    by (auto simp: main_p1_5_def Let_def split: if_splits)
  with ex col conv len show ?thesis by (auto simp: isna_sum_zero_iff)
qed

section \<open>The ordering step of P1.5 with the stable sort\<close>

text \<open>
  Claim C3. The sort of the canonicalization is stable: with the sort primitive being the
  stable ascending sort that the specification names, P1.5 saves a table in which, for
  every timestamp, the rows carrying it stand in the order they had in the input. (The
  script calls the primitive without naming a sort kind, and its adjacency test does not
  look at the order of rows with equal timestamps.)
\<close>

theorem sort_is_stable:
  assumes ex: "input_exists"
    and col: "date_col \<in> set (columns df)"
    and conv: "to_datetime parse (map fst (rows df)) = Some ts"
    and nonull: "None \<notin> set ts"
  shows "\<exists>ev. main_p1_5 sort_values parse input_exists date_col df = Inr ev \<and>
           (\<forall>t. filter (\<lambda>r. fst r = t) (rows (saved ev)) =
                filter (\<lambda>r. fst r = t) (zip ts (map snd (rows df))))"
proof -
  from main_p1_5_sort_values [OF ex col conv nonull]
  obtain ev where run: "main_p1_5 sort_values parse input_exists date_col df = Inr ev"
    and out: "rows (saved ev) = sort_values (zip ts (map snd (rows df)))"
    by simp
  have "filter (\<lambda>r. fst r = t) (rows (saved ev)) =
        filter (\<lambda>r. fst r = t) (zip ts (map snd (rows df)))" for t
    unfolding out by (rule sort_values_stable)
  with run show ?thesis by blast
qed

theorem sort_is_stable_witness:
  "main_p1_5 sort_values Some True ''date_time'' scenario_df = Inr scenario_ev
   \<and> filter (\<lambda>r. fst r = Some 1) (rows scenario_df) = [(Some 1, ''a''), (Some 1, ''d'')]
   \<and> filter (\<lambda>r. fst r = Some 1) (rows (saved scenario_ev)) = [(Some 1, ''a''), (Some 1, ''d'')]"
proof -
  have col: "''date_time'' \<in> set (columns scenario_df)"
    by (simp add: scenario_df_def)
  have conv: "to_datetime Some (map fst (rows scenario_df)) = Some [Some 3, Some 1, Some 2, Some 1]"
    by (simp add: scenario_df_def to_datetime_def)
  have nonull: "None \<notin> set [Some 3, Some 1, Some 2, Some (1::int)]" by simp
  from sort_is_stable [OF TrueI col conv nonull]
  obtain ev where run: "main_p1_5 sort_values Some True ''date_time'' scenario_df = Inr ev"
    and st: "\<forall>t. filter (\<lambda>r. fst r = t) (rows (saved ev)) =
        filter (\<lambda>r. fst r = t) (zip [Some 3, Some 1, Some 2, Some 1] (map snd (rows scenario_df)))"
    by blast
  from run scenario_run have ev: "ev = scenario_ev" by simp
  have input: "filter (\<lambda>r. fst r = Some 1) (rows scenario_df) = [(Some 1, ''a''), (Some 1, ''d'')]"
    by (simp add: scenario_df_def)
  from st [rule_format, of "Some 1"] ev
  have "filter (\<lambda>r. fst r = Some 1) (rows (saved scenario_ev)) = [(Some 1, ''a''), (Some 1, ''d'')]"
    by (simp add: scenario_df_def)
  with scenario_run input show ?thesis by simp
qed

text \<open>
  Claim C4. Canonicalization is idempotent. On a table whose converted temporal column is
  null-free and already non-decreasing, P1.5 (with the stable sort of the specification)
  saves the rows in the order of the input and its adjacency test finds no inversion;
  running it again on the table it saved, whose column is of the temporal type already,
  saves the same table again. P1.6 persists such a table as it read it.
\<close>

theorem canonicalization_idempotent:
  assumes ex: "input_exists"
    and col: "date_col \<in> set (columns df)"
    and conv: "to_datetime parse (map fst (rows df)) = Some ts"
    and nonull: "None \<notin> set ts"
    and ordered: "sorted (dropna ts)"
  shows "(\<exists>ev. main_p1_5 sort_values parse input_exists date_col df = Inr ev
           \<and> saved ev = \<lparr>columns = columns df, rows = zip ts (map snd (rows df))\<rparr>
           \<and> inversions (map fst (rows (saved ev))) = 0
           \<and> (\<exists>ev'. main_p1_5 sort_values Some input_exists date_col (saved ev) = Inr ev'
                   \<and> saved ev' = saved ev
                   \<and> inversions (map fst (rows (saved ev'))) = 0))
       \<and> (find (\<lambda>p. fs p \<noteq> None) CANDIDATOS_INPUT = Some p \<and> fs p = Some df' \<and>
            ''date_time'' \<in> set (columns df') \<and> is_monotonic_increasing (map fst (rows df'))
            \<longrightarrow> persistencia_p1_6 sort_values fs = Inr df')"
proof (rule conjI)
  define df1 where "df1 = zip ts (map snd (rows df))"
  from conv have len: "length ts = length (rows df)"
    using to_datetime_length [of parse "map fst (rows df)" ts] by simp
  then have fst_zip: "map fst df1 = ts" by (simp add: df1_def)
  with nonull ordered have nn: "None \<notin> fst ` set df1" and so: "sorted (dropna (map fst df1))"
    by (metis set_map, simp)
  from sort_values_sorted_id [OF nn so] have same: "sort_values df1 = df1" .
  from main_p1_5_sort_values [OF ex col conv nonull]
  obtain ev where run: "main_p1_5 sort_values parse input_exists date_col df = Inr ev"
    and out: "saved ev = \<lparr>columns = columns df, rows = df1\<rparr>"
    by (simp add: df1_def [symmetric] same)
  from nonull ordered have ok: "list_all (\<lambda>b. b) (adjacent_ok ts)"
    by (rule adjacent_ok_sorted)
  then have inv: "inversions (map fst (rows (saved ev))) = 0"
    by (simp add: out fst_zip inversions_zero_iff)
  have col2: "date_col \<in> set (columns (saved ev))" using col by (simp add: out)
  have conv2: "to_datetime Some (map fst (rows (saved ev))) = Some ts"
  proof -
    have "those (map Some ts) = Some ts" by (induction ts) simp_all
    then show ?thesis by (simp add: to_datetime_def out fst_zip)
  qed
  have rezip: "zip ts (map snd (rows (saved ev))) = df1"
    using len by (simp add: out df1_def)
  from main_p1_5_sort_values [OF ex col2 conv2 nonull]
  obtain ev' where run2: "main_p1_5 sort_values Some input_exists date_col (saved ev) = Inr ev'"
    and out2: "saved ev' = \<lparr>columns = columns (saved ev), rows = df1\<rparr>"
    by (simp add: rezip same)
  from out out2 have same_saved: "saved ev' = saved ev" by simp
  with inv have inv2: "inversions (map fst (rows (saved ev'))) = 0" by simp
  from run out inv run2 same_saved inv2
  show "\<exists>ev. main_p1_5 sort_values parse input_exists date_col df = Inr ev
           \<and> saved ev = \<lparr>columns = columns df, rows = zip ts (map snd (rows df))\<rparr>
           \<and> inversions (map fst (rows (saved ev))) = 0
           \<and> (\<exists>ev'. main_p1_5 sort_values Some input_exists date_col (saved ev) = Inr ev'
                   \<and> saved ev' = saved ev
                   \<and> inversions (map fst (rows (saved ev'))) = 0)"
    unfolding df1_def by blast
next
  show "find (\<lambda>p. fs p \<noteq> None) CANDIDATOS_INPUT = Some p \<and> fs p = Some df' \<and>
         ''date_time'' \<in> set (columns df') \<and> is_monotonic_increasing (map fst (rows df'))
         \<longrightarrow> persistencia_p1_6 sort_values fs = Inr df'"
  proof
    assume h: "find (\<lambda>p. fs p \<noteq> None) CANDIDATOS_INPUT = Some p \<and> fs p = Some df' \<and>
         ''date_time'' \<in> set (columns df') \<and> is_monotonic_increasing (map fst (rows df'))"
    then have "None \<notin> fst ` set (rows df')" "sorted (dropna (map fst (rows df')))"
      by (simp_all add: is_monotonic_increasing_def)
    then have "sort_values (rows df') = rows df'" by (rule sort_values_sorted_id)
    with h show "persistencia_p1_6 sort_values fs = Inr df'"
      by (simp add: persistencia_p1_6_def Let_def)
  qed
qed

theorem canonicalization_idempotent_witness:
  "main_p1_5 sort_values Some True ''date_time'' (saved scenario_ev) = Inr scenario_ev
   \<and> inversions (map fst (rows (saved scenario_ev))) = 0
   \<and> persistencia_p1_6 sort_values
        (\<lambda>p. if p = ''dataset_meteorologico_p1_5.parquet'' then Some (saved scenario_ev) else None)
       = Inr (saved scenario_ev)"
proof -
  let ?fs = "\<lambda>p. if p = ''dataset_meteorologico_p1_5.parquet'' then Some (saved scenario_ev) else None"
  have col: "''date_time'' \<in> set (columns (saved scenario_ev))"
    by (simp add: scenario_ev_def)
  have conv: "to_datetime Some (map fst (rows (saved scenario_ev))) = Some [Some 1, Some 1, Some 2, Some 3]"
    by (simp add: scenario_ev_def to_datetime_def)
  have nonull: "None \<notin> set [Some 1, Some 1, Some 2, Some (3::int)]" by simp
  have ordered: "sorted (dropna [Some 1, Some 1, Some 2, Some (3::int)])" by simp
  have pre: "find (\<lambda>p. ?fs p \<noteq> None) CANDIDATOS_INPUT = Some ''dataset_meteorologico_p1_5.parquet''
      \<and> ?fs ''dataset_meteorologico_p1_5.parquet'' = Some (saved scenario_ev)
      \<and> ''date_time'' \<in> set (columns (saved scenario_ev))
      \<and> is_monotonic_increasing (map fst (rows (saved scenario_ev)))"
    by (simp add: CANDIDATOS_INPUT_def scenario_ev_def is_monotonic_increasing_def)
  note inst = canonicalization_idempotent [OF TrueI col conv nonull ordered,
      of ?fs "''dataset_meteorologico_p1_5.parquet''" "saved scenario_ev"]
  from inst [THEN conjunct1]
  obtain ev where run: "main_p1_5 sort_values Some True ''date_time'' (saved scenario_ev) = Inr ev"
    and out: "saved ev = \<lparr>columns = columns (saved scenario_ev),
        rows = zip [Some 1, Some 1, Some 2, Some 3] (map snd (rows (saved scenario_ev)))\<rparr>"
    and inv: "inversions (map fst (rows (saved ev))) = 0"
    by blast
  have again: "main_p1_5 sort_values Some True ''date_time'' (saved scenario_ev) = Inr scenario_ev"
    by code_simp
  from run again have "ev = scenario_ev" by simp
  with inv have inv': "inversions (map fst (rows (saved scenario_ev))) = 0" by simp
  from inst [THEN conjunct2, rule_format, OF pre]
  have "persistencia_p1_6 sort_values ?fs = Inr (saved scenario_ev)" .
  with again inv' show ?thesis by simp
qed

text \<open>
  Claim C5. The sort changes only the order of the rows: the table that P1.5 saves (with
  the sort of the specification) is a permutation of the converted input, and the minimum,
  the maximum and the number of duplicated timestamps it records after the sort equal the
  ones it recorded before.
\<close>

theorem sort_only_reorders:
  assumes ex: "input_exists"
    and col: "date_col \<in> set (columns df)"
    and conv: "to_datetime parse (map fst (rows df)) = Some ts"
    and nonull: "None \<notin> set ts"
  shows "\<exists>ev. main_p1_5 sort_values parse input_exists date_col df = Inr ev
           \<and> mset (rows (saved ev)) = mset (zip ts (map snd (rows df)))
           \<and> dt_min ev = series_min ts \<and> dt_max ev = series_max ts
           \<and> dup_count ev = duplicated_sum ts
           \<and> dt_min2 ev = dt_min ev \<and> dt_max2 ev = dt_max ev \<and> dup_count2 ev = dup_count ev"
proof -
  define df1 where "df1 = zip ts (map snd (rows df))"
  from conv have len: "length ts = length (rows df)"
    using to_datetime_length [of parse "map fst (rows df)" ts] by simp
  then have fst_zip: "map fst df1 = ts" by (simp add: df1_def)
  have perm: "mset (sort_values df1) = mset df1" by (rule mset_sort_values)
  then have "mset (map fst (sort_values df1)) = mset (map fst df1)"
    by (metis mset_map)
  with fst_zip have keys: "mset (map fst (sort_values df1)) = mset ts" by simp
  then have sets: "set (map fst (sort_values df1)) = set ts" by (rule mset_eq_setD)
  from main_p1_5_sort_values [OF ex col conv nonull]
  obtain ev where run: "main_p1_5 sort_values parse input_exists date_col df = Inr ev"
    and ev: "ev = \<lparr>dt_min = series_min ts, dt_max = series_max ts, dup_count = duplicated_sum ts,
          dt_min2 = series_min (map fst (sort_values df1)),
          dt_max2 = series_max (map fst (sort_values df1)),
          dup_count2 = duplicated_sum (map fst (sort_values df1)),
          saved = \<lparr>columns = columns df, rows = sort_values df1\<rparr>\<rparr>"
    by (simp add: df1_def)
  have "mset (rows (saved ev)) = mset df1" using perm by (simp add: ev)
  moreover have "dt_min2 ev = dt_min ev"
    using series_min_set [OF sets] by (simp add: ev)
  moreover have "dt_max2 ev = dt_max ev"
    using series_max_set [OF sets] by (simp add: ev)
  moreover have "dup_count2 ev = dup_count ev"
    using duplicated_sum_mset [OF keys] by (simp add: ev)
  moreover have "dt_min ev = series_min ts" "dt_max ev = series_max ts"
    "dup_count ev = duplicated_sum ts"
    by (simp_all add: ev)
  ultimately show ?thesis using run unfolding df1_def by blast
qed

theorem sort_only_reorders_witness:
  "main_p1_5 sort_values Some True ''date_time'' scenario_df = Inr scenario_ev
   \<and> mset (rows (saved scenario_ev)) = mset (rows scenario_df)
   \<and> rows (saved scenario_ev) \<noteq> rows scenario_df
   \<and> dt_min scenario_ev = Some 1 \<and> dt_min2 scenario_ev = Some 1
   \<and> dt_max scenario_ev = Some 3 \<and> dt_max2 scenario_ev = Some 3
   \<and> dup_count scenario_ev = 1 \<and> dup_count2 scenario_ev = 1"
proof -
  have col: "''date_time'' \<in> set (columns scenario_df)"
    by (simp add: scenario_df_def)
  have conv: "to_datetime Some (map fst (rows scenario_df)) = Some [Some 3, Some 1, Some 2, Some 1]"
    by (simp add: scenario_df_def to_datetime_def)
  have nonull: "None \<notin> set [Some 3, Some 1, Some 2, Some (1::int)]" by simp
  from sort_only_reorders [OF TrueI col conv nonull]
  obtain ev where run: "main_p1_5 sort_values Some True ''date_time'' scenario_df = Inr ev"
    and perm: "mset (rows (saved ev)) =
        mset (zip [Some 3, Some 1, Some 2, Some 1] (map snd (rows scenario_df)))"
    by blast
  from run scenario_run have ev: "ev = scenario_ev" by simp
  have "zip [Some 3, Some 1, Some 2, Some 1] (map snd (rows scenario_df)) = rows scenario_df"
    by (simp add: scenario_df_def)
  with perm ev have "mset (rows (saved scenario_ev)) = mset (rows scenario_df)" by simp
  moreover have "rows (saved scenario_ev) \<noteq> rows scenario_df"
    by (simp add: scenario_ev_def scenario_df_def)
  moreover have "dt_min scenario_ev = Some 1" "dt_min2 scenario_ev = Some 1"
    "dt_max scenario_ev = Some 3" "dt_max2 scenario_ev = Some 3"
    "dup_count scenario_ev = 1" "dup_count2 scenario_ev = 1"
    by (simp_all add: scenario_ev_def)
  ultimately show ?thesis using scenario_run by simp
qed

section \<open>Numeric profiling\<close>

lemma collect_length: "collect xs = Inr vs \<Longrightarrow> length vs = length xs"
  by (induction xs arbitrary: vs) (auto split: sum.splits)

lemma length_build_rows:
  "length mins = length sel \<Longrightarrow> length maxs = length sel \<Longrightarrow>
   length (build_rows sel mins maxs) = length sel"
  by (simp add: build_rows_def)

lemma nth_build_rows:
  assumes "length mins = length sel" "length maxs = length sel" "i < length sel"
  shows "build_rows sel mins maxs ! i =
     \<lparr>rf_coluna = coluna (sel ! i), rf_min = mins ! i, rf_max = maxs ! i,
      rf_range = maxs ! i - mins ! i, flag_invertido = (maxs ! i < mins ! i),
      flag_range_muito_alto = False\<rparr>"
  using assms by (simp add: build_rows_def)

lemma map_range_build_rows:
  assumes "length mins = length sel" "length maxs = length sel"
  shows "map rf_range (build_rows sel mins maxs) = map (\<lambda>(mn, mx). mx - mn) (zip mins maxs)"
proof (rule nth_equalityI)
  show "length (map rf_range (build_rows sel mins maxs)) = length (map (\<lambda>(mn, mx). mx - mn) (zip mins maxs))"
    using assms by (simp add: build_rows_def)
next
  fix i
  assume "i < length (map rf_range (build_rows sel mins maxs))"
  then have i: "i < length sel" using assms by (simp add: build_rows_def)
  then show "map rf_range (build_rows sel mins maxs) ! i = map (\<lambda>(mn, mx). mx - mn) (zip mins maxs) ! i"
    using assms by (simp add: nth_build_rows length_build_rows)
qed

lemma length_flag_high: "length (flag_high quantile out) = length out"
  by (simp add: flag_high_def split: option.splits)

lemma nth_flag_high:
  assumes "i < length out"
  shows "flag_high quantile out ! i =
     (out ! i)\<lparr>flag_range_muito_alto :=
        (case quantile (95 / 100) (map rf_range out) of
           Some thr \<Rightarrow> thr < rf_range (out ! i) | None \<Rightarrow> False)\<rparr>"
  using assms by (simp add: flag_high_def split: option.splits)


lemma range_flags_labels:
  assumes "range_flags col_min col_max quantile df = Inr out"
  shows "map rf_coluna out = map coluna (num_cols df)"
proof (cases "num_cols df = []")
  case True
  with assms show ?thesis by (simp add: range_flags_def)
next
  case False
  with assms obtain mins maxs
    where mins: "collect (map col_min (num_cols df)) = Inr mins"
      and maxs: "collect (map col_max (num_cols df)) = Inr maxs"
      and out: "out = flag_high quantile (build_rows (num_cols df) mins maxs)"
    by (auto simp: range_flags_def Let_def split: sum.splits)
  from collect_length [OF mins] collect_length [OF maxs]
  have len: "length mins = length (num_cols df)" "length maxs = length (num_cols df)"
    by simp_all
  show ?thesis
  proof (rule nth_equalityI)
    show "length (map rf_coluna out) = length (map coluna (num_cols df))"
      using len by (simp add: out length_flag_high length_build_rows)
  next
    fix i
    assume "i < length (map rf_coluna out)"
    then have i: "i < length (num_cols df)"
      using len by (simp add: out length_flag_high length_build_rows)
    then have "i < length (build_rows (num_cols df) mins maxs)"
      using len by (simp add: length_build_rows)
    then show "map rf_coluna out ! i = map coluna (num_cols df) ! i"
      using i len by (simp add: out length_flag_high nth_flag_high nth_build_rows)
  qed
qed

text \<open>
  Claim C10. A column takes part in the numeric profiling exactly when the rendering of
  its dtype contains \<^verbatim>\<open>int\<close>, \<^verbatim>\<open>float\<close>, \<^verbatim>\<open>uint\<close> or \<^verbatim>\<open>decimal\<close> as a substring: the
  columns handed to the engine's describe and quantile operations, and the rows of the
  range-flags table, are those columns, in table order. The test looks at the name only,
  so a column of intervals over \<^verbatim>\<open>int64\<close> is profiled as numeric.
\<close>

theorem numeric_selection_by_dtype_substring:
  fixes df :: "'v dataframe"
  defines "sel \<equiv> filter (\<lambda>c. \<exists>t \<in> {''int'', ''float'', ''uint'', ''decimal''}.
                                  \<exists>p q. dtype c = p @ t @ q) (cols df)"
  shows "num_cols df = sel
       \<and> numeric_describe describe df = (if sel = [] then Inr [] else describe sel)
       \<and> numeric_quantiles quantile_table qs df = (if sel = [] then Inr [] else quantile_table qs sel)
       \<and> (range_flags col_min col_max quantile df = Inr out \<longrightarrow> map rf_coluna out = map coluna sel)
       \<and> save_figures hist_ok box_ok df =
           (if sel = [] then []
            else map (\<lambda>c. ''hist_'' @ coluna c @ ''.png'') (filter (\<lambda>c. hist_ok (coluna c)) (take 4 sel))
                 @ (if box_ok then [''boxplot_primeiras_colunas.png''] else []))"
proof -
  have sel: "num_cols df = sel"
    unfolding num_cols_def sel_def by (simp only: is_numeric_dtype_iff)
  have "numeric_describe describe df = (if sel = [] then Inr [] else describe sel)"
    by (simp add: numeric_describe_def Let_def sel)
  moreover have "numeric_quantiles quantile_table qs df =
      (if sel = [] then Inr [] else quantile_table qs sel)"
    by (simp add: numeric_quantiles_def Let_def sel)
  moreover have "range_flags col_min col_max quantile df = Inr out \<longrightarrow>
      map rf_coluna out = map coluna sel"
    using range_flags_labels [of col_min col_max quantile df out] by (simp add: sel)
  moreover have "save_figures hist_ok box_ok df =
      (if sel = [] then []
       else map (\<lambda>c. ''hist_'' @ coluna c @ ''.png'') (filter (\<lambda>c. hist_ok (coluna c)) (take 4 sel))
            @ (if box_ok then [''boxplot_primeiras_colunas.png''] else []))"
    by (simp add: save_figures_def Let_def sel)
  ultimately show ?thesis using sel by blast
qed

lemma meteo_num_cols:
  "map coluna (num_cols meteo_df) = [''temp'', ''press'', ''rain'', ''span'']"
  by code_simp

theorem numeric_selection_by_dtype_substring_witness:
  "map coluna (filter (\<lambda>c. \<exists>t \<in> {''int'', ''float'', ''uint'', ''decimal''}.
                            \<exists>p q. dtype c = p @ t @ q) (cols meteo_df))
     = [''temp'', ''press'', ''rain'', ''span'']
   \<and> map dtype (num_cols meteo_df) = [''float64'', ''float32'', ''int64'', ''interval[int64, right]'']"
proof -
  from numeric_selection_by_dtype_substring [of meteo_df, THEN conjunct1]
  have "filter (\<lambda>c. \<exists>t \<in> {''int'', ''float'', ''uint'', ''decimal''}.
                      \<exists>p q. dtype c = p @ t @ q) (cols meteo_df) = num_cols meteo_df"
    by simp
  moreover have "map dtype (num_cols meteo_df) =
      [''float64'', ''float32'', ''int64'', ''interval[int64, right]'']"
    by code_simp
  ultimately show ?thesis using meteo_num_cols by simp
qed

text \<open>
  Claim C9. On a table without a numeric column the profiling functions return an empty
  table and raise nothing, whatever the engine would do if asked; no figure is drawn, and
  the run writes the schema, the duplicates report, the metadata and the log only.
\<close>

theorem empty_numeric_set_empty_profile:
  assumes none: "\<forall>c \<in> set (cols df). \<not> is_numeric_dtype (dtype c)"
  shows "numeric_describe describe df = Inr []
       \<and> numeric_quantiles quantile_table qs df = Inr []
       \<and> range_flags col_min col_max quantile df = Inr []
       \<and> save_figures hist_ok box_ok df = []
       \<and> (e ''CAP5_METEO_PARQUET'' = Some parquet_path \<and> e ''CAP5_METEO_CSV'' = Some csv_path \<and>
            e ''CAP5_XIV_OUTDIR'' = Some outdir \<longrightarrow>
            (\<exists>out. main_xiv eng (Some e) now (Some df) = Inr out
                 \<and> describe_csv out = None \<and> quantis_csv out = None \<and> ranges_csv out = None
                 \<and> figuras out = []
                 \<and> written out = [schema_csv out, duplicatas_json out, meta_file out, log_file out]))"
proof -
  from none have sel: "num_cols df = []" by (simp add: num_cols_def filter_empty_conv)
  have d: "numeric_describe describe df = Inr []"
    by (simp add: numeric_describe_def sel)
  have q: "numeric_quantiles quantile_table qs df = Inr []"
    by (simp add: numeric_quantiles_def sel)
  have r: "range_flags col_min col_max quantile df = Inr []"
    by (simp add: range_flags_def sel)
  have f: "save_figures hist_ok box_ok df = []"
    by (simp add: save_figures_def sel)
  have m: "\<exists>out. main_xiv eng (Some e) now (Some df) = Inr out
        \<and> describe_csv out = None \<and> quantis_csv out = None \<and> ranges_csv out = None
        \<and> figuras out = []
        \<and> written out = [schema_csv out, duplicatas_json out, meta_file out, log_file out]"
    if "e ''CAP5_METEO_PARQUET'' = Some parquet_path \<and> e ''CAP5_METEO_CSV'' = Some csv_path \<and>
        e ''CAP5_XIV_OUTDIR'' = Some outdir"
    using that
    by (simp add: main_xiv_def Let_def numeric_describe_def numeric_quantiles_def range_flags_def
        save_figures_def sel optional_path_def)
  show ?thesis
    using d q r f m by blast
qed

theorem empty_numeric_set_empty_profile_witness:
  "numeric_describe (eng_describe failing_engine) text_df = Inr []
   \<and> numeric_quantiles (eng_quantile_table failing_engine) default_qs text_df = Inr []
   \<and> range_flags (eng_min failing_engine) (eng_max failing_engine) (eng_quantile failing_engine) text_df = Inr []
   \<and> (\<exists>out. main_xiv failing_engine (Some example_env) morning (Some text_df) = Inr out
          \<and> written out =
              [[''resultados'', ''xiv'', ''tabelas'', ''schema_nulos_20250307_090500.csv''],
               [''resultados'', ''xiv'', ''tabelas'', ''duplicatas_20250307_090500.json''],
               [''resultados'', ''xiv'', ''metadata'', ''run_20250307_090500.json''],
               [''resultados'', ''xiv'', ''logs'', ''run_20250307_090500.log'']])
   \<and> numeric_describe (eng_describe failing_engine) meteo_df = Inl ()"
proof -
  have none: "\<forall>c \<in> set (cols text_df). \<not> is_numeric_dtype (dtype c)"
    by code_simp
  have env: "example_env ''CAP5_METEO_PARQUET'' = Some [''data'', ''meteo.parquet''] \<and>
      example_env ''CAP5_METEO_CSV'' = Some [''data'', ''meteo.csv''] \<and>
      example_env ''CAP5_XIV_OUTDIR'' = Some [''resultados'', ''xiv'']"
    by (simp add: example_env_def)
  note inst = empty_numeric_set_empty_profile [OF none,
      of "eng_describe failing_engine" "eng_quantile_table failing_engine" default_qs
         "eng_min failing_engine" "eng_max failing_engine" "eng_quantile failing_engine"
         "\<lambda>c. False" False example_env "[''data'', ''meteo.parquet'']" "[''data'', ''meteo.csv'']"
         "[''resultados'', ''xiv'']" failing_engine morning]
  from inst env obtain out
    where run: "main_xiv failing_engine (Some example_env) morning (Some text_df) = Inr out"
      and wr: "written out = [schema_csv out, duplicatas_json out, meta_file out, log_file out]"
    by blast
  have "main_xiv failing_engine (Some example_env) morning (Some text_df) =
      Inr \<lparr>run_id = ''20250307_090500'',
           schema_csv = [''resultados'', ''xiv'', ''tabelas'', ''schema_nulos_20250307_090500.csv''],
           duplicatas_json = [''resultados'', ''xiv'', ''tabelas'', ''duplicatas_20250307_090500.json''],
           describe_csv = None, quantis_csv = None, ranges_csv = None, figuras = [],
           log_file = [''resultados'', ''xiv'', ''logs'', ''run_20250307_090500.log''],
           meta_file = [''resultados'', ''xiv'', ''metadata'', ''run_20250307_090500.json''],
           written =
             [[''resultados'', ''xiv'', ''tabelas'', ''schema_nulos_20250307_090500.csv''],
              [''resultados'', ''xiv'', ''tabelas'', ''duplicatas_20250307_090500.json''],
              [''resultados'', ''xiv'', ''metadata'', ''run_20250307_090500.json''],
              [''resultados'', ''xiv'', ''logs'', ''run_20250307_090500.log'']]\<rparr>"
    by code_simp
  with run have "written out =
      [[''resultados'', ''xiv'', ''tabelas'', ''schema_nulos_20250307_090500.csv''],
       [''resultados'', ''xiv'', ''tabelas'', ''duplicatas_20250307_090500.json''],
       [''resultados'', ''xiv'', ''metadata'', ''run_20250307_090500.json''],
       [''resultados'', ''xiv'', ''logs'', ''run_20250307_090500.log'']]"
    by auto
  moreover have "numeric_describe (eng_describe failing_engine) meteo_df = Inl ()"
    by code_simp
  ultimately show ?thesis using inst run by blast
qed



section \<open>The comparison of the two encodings (P1.1b)\<close>

text \<open>
  Claim C6. For two loaded tables, \<^verbatim>\<open>same_shape\<close> holds exactly when the numbers of rows
  and of columns agree, and \<^verbatim>\<open>same_cols\<close> exactly when the column labels agree position by
  position. Whatever the verdicts are, the run writes them as lines of the summary, writes
  one schema row per Parquet column, and ends with status 0.
\<close>

theorem schema_verdicts:
  fixes show_path :: "path \<Rightarrow> string"
    and to_string :: "'v dataframe \<Rightarrow> string"
    and now :: datetime
    and csv pq :: "'v stored_file"
  defines "run \<equiv> main_p1_1b show_path to_string now (Some csv) (Some pq)"
  shows "(same_shape (table csv) (table pq) \<longleftrightarrow>
            n_rows (table csv) = n_rows (table pq) \<and>
            length (cols (table csv)) = length (cols (table pq)))
       \<and> (same_cols (table csv) (table pq) \<longleftrightarrow>
            length (cols (table csv)) = length (cols (table pq)) \<and>
            (\<forall>i < length (cols (table pq)).
               coluna (cols (table csv) ! i) = coluna (cols (table pq) ! i)))
       \<and> exit_code run = 0
       \<and> (\<exists>lines. (OUT_TXT, SummaryTxt lines) \<in> set (files run)
             \<and> ''Mesma shape (CSV vs Parquet): '' @ str_bool (same_shape (table csv) (table pq))
                 \<in> set lines
             \<and> ''Mesmas colunas (ordem id'' @ e_circunflexo @ ''ntica): ''
                   @ str_bool (same_cols (table csv) (table pq))
                 \<in> set lines)
       \<and> (\<exists>sch. (OUT_SCHEMA, SchemaCsv sch) \<in> set (files run)
             \<and> map sr_coluna sch = map coluna (cols (table pq))
             \<and> map dtype_parquet sch = map dtype (cols (table pq)))"
proof -
  have shape: "same_shape (table csv) (table pq) \<longleftrightarrow>
      n_rows (table csv) = n_rows (table pq) \<and> length (cols (table csv)) = length (cols (table pq))"
    by (simp add: same_shape_def shape_def)
  have labels: "same_cols (table csv) (table pq) \<longleftrightarrow>
      length (cols (table csv)) = length (cols (table pq)) \<and>
      (\<forall>i < length (cols (table pq)). coluna (cols (table csv) ! i) = coluna (cols (table pq) ! i))"
  proof -
    let ?A = "cols (table csv)" and ?B = "cols (table pq)"
    have "map coluna ?A = map coluna ?B \<longleftrightarrow>
        length ?A = length ?B \<and> (\<forall>i < length ?B. coluna (?A ! i) = coluna (?B ! i))"
    proof
      assume eq: "map coluna ?A = map coluna ?B"
      then have len: "length ?A = length ?B" by (metis length_map)
      have "coluna (?A ! i) = coluna (?B ! i)" if "i < length ?B" for i
      proof -
        from eq have "map coluna ?A ! i = map coluna ?B ! i" by simp
        with that len show ?thesis by simp
      qed
      with len show "length ?A = length ?B \<and> (\<forall>i < length ?B. coluna (?A ! i) = coluna (?B ! i))"
        by blast
    next
      assume "length ?A = length ?B \<and> (\<forall>i < length ?B. coluna (?A ! i) = coluna (?B ! i))"
      then show "map coluna ?A = map coluna ?B"
        by (intro nth_equalityI) simp_all
    qed
    then show ?thesis by (simp add: same_cols_def)
  qed
  have status: "exit_code run = 0" by (simp add: run_def main_p1_1b_def)
  have summ: "(OUT_TXT, SummaryTxt (summary_lines show_path to_string now csv pq)) \<in> set (files run)"
    by (simp add: run_def main_p1_1b_def)
  have l1: "''Mesma shape (CSV vs Parquet): '' @ str_bool (same_shape (table csv) (table pq))
      \<in> set (summary_lines show_path to_string now csv pq)"
    by (simp add: summary_lines_def Let_def)
  have l2: "''Mesmas colunas (ordem id'' @ e_circunflexo @ ''ntica): ''
        @ str_bool (same_cols (table csv) (table pq))
      \<in> set (summary_lines show_path to_string now csv pq)"
    by (simp add: summary_lines_def Let_def)
  have sch: "(OUT_SCHEMA, SchemaCsv (schema_rows (table csv) (table pq))) \<in> set (files run)"
    by (simp add: run_def main_p1_1b_def)
  have s1: "map sr_coluna (schema_rows (table csv) (table pq)) = map coluna (cols (table pq))"
    by (simp add: schema_rows_def comp_def)
  have s2: "map dtype_parquet (schema_rows (table csv) (table pq)) = map dtype (cols (table pq))"
    by (simp add: schema_rows_def comp_def)
  from shape labels status summ l1 l2 sch s1 s2 show ?thesis by blast
qed

theorem schema_verdicts_witness:
  "same_shape (table csv_stored) (table parquet_stored)
   \<and> \<not> same_cols (table csv_stored) (table parquet_stored)
   \<and> exit_code (main_p1_1b (join ''/'') (\<lambda>d. ''...'') morning (Some csv_stored) (Some parquet_stored)) = 0
   \<and> (\<exists>lines. (OUT_TXT, SummaryTxt lines)
          \<in> set (files (main_p1_1b (join ''/'') (\<lambda>d. ''...'') morning (Some csv_stored) (Some parquet_stored)))
        \<and> ''Mesma shape (CSV vs Parquet): True'' \<in> set lines
        \<and> ''Mesmas colunas (ordem id'' @ e_circunflexo @ ''ntica): False'' \<in> set lines)
   \<and> exit_code (main_p1_1b (join ''/'') (\<lambda>d. ''...'') morning None (Some parquet_stored)) = 2"
proof -
  have a: "same_shape (table csv_stored) (table parquet_stored)"
    by (simp add: same_shape_def shape_def csv_stored_def parquet_stored_def text_df_def renamed_df_def)
  have b: "\<not> same_cols (table csv_stored) (table parquet_stored)"
    by (simp add: same_cols_def csv_stored_def parquet_stored_def text_df_def renamed_df_def)
  have t: "str_bool True = ''True''" and f: "str_bool False = ''False''"
    by (simp_all add: str_bool_def)
  note inst = schema_verdicts [where show_path = "join ''/''" and to_string = "\<lambda>d. ''...''"
      and now = morning and csv = csv_stored and pq = parquet_stored]
  from inst have "exit_code (main_p1_1b (join ''/'') (\<lambda>d. ''...'') morning (Some csv_stored) (Some parquet_stored)) = 0"
    by blast
  moreover from inst a b t f
  have "\<exists>lines. (OUT_TXT, SummaryTxt lines)
          \<in> set (files (main_p1_1b (join ''/'') (\<lambda>d. ''...'') morning (Some csv_stored) (Some parquet_stored)))
        \<and> ''Mesma shape (CSV vs Parquet): True'' \<in> set lines
        \<and> ''Mesmas colunas (ordem id'' @ e_circunflexo @ ''ntica): False'' \<in> set lines"
    by simp
  moreover have "exit_code (main_p1_1b (join ''/'') (\<lambda>d. ''...'') morning None (Some parquet_stored)) = 2"
    by (simp add: main_p1_1b_def)
  ultimately show ?thesis using a b by blast
qed

section \<open>Run identifiers and the paths of the artifacts\<close>

declare str_nat.simps [simp del]

lemma digit_value: "d < 10 \<Longrightarrow> of_char (digit_char d) - 48 = (d::nat)"
  by (simp add: digit_char_def)

lemma digits_value_snoc:
  "digits_value (s @ [c]) = 10 * digits_value s + (of_char c - 48)"
  by (simp add: digits_value_def)

lemma digits_value_str_nat: "digits_value (str_nat n) = n"
proof (induction n rule: str_nat.induct)
  case (1 n)
  show ?case
  proof (cases "n < 10")
    case True
    then have "str_nat n = [digit_char n]" by (subst str_nat.simps) simp
    with True show ?thesis by (simp add: digits_value_def digit_value)
  next
    case False
    then have s: "str_nat n = str_nat (n div 10) @ [digit_char (n mod 10)]"
      by (subst str_nat.simps) simp
    from False "1.IH" have "digits_value (str_nat (n div 10)) = n div 10" by simp
    then show ?thesis by (simp add: s digits_value_snoc digit_value)
  qed
qed

lemma foldl_digits_zeros:
  "foldl (\<lambda>a c. 10 * a + (of_char c - 48)) (0::nat) (replicate k (CHR ''0'')) = 0"
  by (induction k) simp_all

lemma digits_value_zeros: "digits_value (replicate k (CHR ''0'') @ s) = digits_value s"
  by (simp add: digits_value_def foldl_digits_zeros)

lemma digits_value_zero_pad: "digits_value (zero_pad w n) = n"
  by (simp add: zero_pad_def digits_value_zeros digits_value_str_nat)

lemma length_str_nat: "0 < k \<Longrightarrow> n < 10 ^ k \<Longrightarrow> length (str_nat n) \<le> k"
proof (induction n arbitrary: k rule: str_nat.induct)
  case (1 n)
  show ?case
  proof (cases "n < 10")
    case True
    then have "str_nat n = [digit_char n]" by (subst str_nat.simps) simp
    with "1.prems" show ?thesis by simp
  next
    case False
    then have s: "str_nat n = str_nat (n div 10) @ [digit_char (n mod 10)]"
      by (subst str_nat.simps) simp
    from False "1.prems" have k2: "1 < k"
      by (metis One_nat_def Suc_lessI leI power_one_right)
    then obtain j where k: "k = Suc j" and j: "0 < j" by (cases k) auto
    from "1.prems" k have "n div 10 < 10 ^ j"
      by (simp add: less_mult_imp_div_less mult.commute)
    from "1.IH" [OF False j this] have "length (str_nat (n div 10)) \<le> j" .
    then show ?thesis by (simp add: s k)
  qed
qed

lemma length_zero_pad: "0 < w \<Longrightarrow> n < 10 ^ w \<Longrightarrow> length (zero_pad w n) = w"
  using length_str_nat [of w n] by (simp add: zero_pad_def)

lemma zero_pad_inj: "zero_pad w n = zero_pad w m \<Longrightarrow> n = m"
  by (metis digits_value_zero_pad)

lemma strftime_run_id_inj:
  assumes v: "valid_clock t" and v': "valid_clock t'"
    and eq: "strftime_run_id t = strftime_run_id t'"
  shows "same_second t t'"
proof -
  from v have l: "length (zero_pad 4 (year t)) = 4" "length (zero_pad 2 (month t)) = 2"
    "length (zero_pad 2 (day t)) = 2" "length (zero_pad 2 (hour t)) = 2"
    "length (zero_pad 2 (minute t)) = 2" "length (zero_pad 2 (second t)) = 2"
    by (simp_all add: valid_clock_def length_zero_pad)
  from v' have l': "length (zero_pad 4 (year t')) = 4" "length (zero_pad 2 (month t')) = 2"
    "length (zero_pad 2 (day t')) = 2" "length (zero_pad 2 (hour t')) = 2"
    "length (zero_pad 2 (minute t')) = 2" "length (zero_pad 2 (second t')) = 2"
    by (simp_all add: valid_clock_def length_zero_pad)
  from eq have "zero_pad 4 (year t) = zero_pad 4 (year t')
      \<and> zero_pad 2 (month t) = zero_pad 2 (month t')
      \<and> zero_pad 2 (day t) = zero_pad 2 (day t')
      \<and> zero_pad 2 (hour t) = zero_pad 2 (hour t')
      \<and> zero_pad 2 (minute t) = zero_pad 2 (minute t')
      \<and> zero_pad 2 (second t) = zero_pad 2 (second t')"
    unfolding strftime_run_id_def using l l' by (simp add: append_eq_append_conv)
  then show ?thesis by (auto simp: same_second_def dest: zero_pad_inj)
qed

lemma strftime_run_id_same_second:
  "same_second t t' \<Longrightarrow> strftime_run_id t = strftime_run_id t'"
  by (simp add: same_second_def strftime_run_id_def)

lemma main_xiv_Inr_D:
  assumes "main_xiv eng env now parquet = Inr out"
  shows "\<exists>outdir. run_id out = strftime_run_id now
     \<and> schema_csv out = outdir @ [''tabelas'', ''schema_nulos_'' @ run_id out @ ''.csv'']
     \<and> duplicatas_json out = outdir @ [''tabelas'', ''duplicatas_'' @ run_id out @ ''.json'']
     \<and> describe_csv out \<in> {None, Some (outdir @ [''tabelas'', ''describe_numerico_'' @ run_id out @ ''.csv''])}
     \<and> quantis_csv out \<in> {None, Some (outdir @ [''tabelas'', ''quantis_numericos_'' @ run_id out @ ''.csv''])}
     \<and> ranges_csv out \<in> {None, Some (outdir @ [''tabelas'', ''ranges_flags_'' @ run_id out @ ''.csv''])}
     \<and> log_file out = outdir @ [''logs'', ''run_'' @ run_id out @ ''.log'']
     \<and> meta_file out = outdir @ [''metadata'', ''run_'' @ run_id out @ ''.json'']
     \<and> written out = [schema_csv out, duplicatas_json out] @ optional_path (describe_csv out)
           @ optional_path (quantis_csv out) @ optional_path (ranges_csv out)
           @ map (\<lambda>n. outdir @ [''figuras'', n]) (figuras out) @ [meta_file out, log_file out]"
  using assms
  by (auto simp: main_xiv_def Let_def split: option.splits sum.splits if_splits)

lemma path_tail_eq:
  "outdir @ [d, n] = outdir' @ [d', n'] \<longleftrightarrow> outdir = outdir' \<and> d = d' \<and> n = n'"
  by (simp add: append_eq_append_conv)

lemma keyed_path_inj:
  assumes "keyed_path outdir r k = keyed_path outdir' r' k'"
  shows "r = r'"
  using assms by (cases k; cases k') (simp_all add: path_tail_eq)

lemma keyed_paths_form:
  assumes run: "main_xiv eng env now parquet = Inr out"
    and p: "p \<in> set (keyed_paths out)"
  shows "\<exists>outdir k. p = keyed_path outdir (run_id out) k"
proof -
  from main_xiv_Inr_D [OF run] obtain outdir where
    f1: "schema_csv out = keyed_path outdir (run_id out) Schema"
    and f2: "duplicatas_json out = keyed_path outdir (run_id out) Duplicatas"
    and f3: "describe_csv out \<in> {None, Some (keyed_path outdir (run_id out) Describe)}"
    and f4: "quantis_csv out \<in> {None, Some (keyed_path outdir (run_id out) Quantis)}"
    and f5: "ranges_csv out \<in> {None, Some (keyed_path outdir (run_id out) Ranges)}"
    and f6: "log_file out = keyed_path outdir (run_id out) Log"
    and f7: "meta_file out = keyed_path outdir (run_id out) Metadata"
    unfolding keyed_path.simps by (elim exE conjE) 
  from p consider "p = schema_csv out" | "p = duplicatas_json out"
    | "describe_csv out = Some p" | "quantis_csv out = Some p" | "ranges_csv out = Some p"
    | "p = meta_file out" | "p = log_file out"
    unfolding keyed_paths_def optional_path_def
    by (cases "describe_csv out"; cases "quantis_csv out"; cases "ranges_csv out") auto
  then show ?thesis
  proof cases
    case 1
    with f1 have "p = keyed_path outdir (run_id out) Schema" by (simp del: keyed_path.simps)
    then show ?thesis by blast
  next
    case 2
    with f2 have "p = keyed_path outdir (run_id out) Duplicatas" by (simp del: keyed_path.simps)
    then show ?thesis by blast
  next
    case 3
    with f3 have "p = keyed_path outdir (run_id out) Describe"
      by (simp del: keyed_path.simps)
    then show ?thesis by blast
  next
    case 4
    with f4 have "p = keyed_path outdir (run_id out) Quantis"
      by (simp del: keyed_path.simps)
    then show ?thesis by blast
  next
    case 5
    with f5 have "p = keyed_path outdir (run_id out) Ranges"
      by (simp del: keyed_path.simps)
    then show ?thesis by blast
  next
    case 6
    with f7 have "p = keyed_path outdir (run_id out) Metadata" by (simp del: keyed_path.simps)
    then show ?thesis by blast
  next
    case 7
    with f6 have "p = keyed_path outdir (run_id out) Log" by (simp del: keyed_path.simps)
    then show ?thesis by blast
  qed
qed

lemma keyed_paths_written:
  assumes run: "main_xiv eng env now parquet = Inr out"
  shows "set (keyed_paths out) \<subseteq> set (written out)"
proof -
  from main_xiv_Inr_D [OF run] obtain outdir where
    "written out = [schema_csv out, duplicatas_json out] @ optional_path (describe_csv out)
       @ optional_path (quantis_csv out) @ optional_path (ranges_csv out)
       @ map (\<lambda>n. outdir @ [''figuras'', n]) (figuras out) @ [meta_file out, log_file out]"
    by (elim exE conjE)
  then show ?thesis by (auto simp: keyed_paths_def)
qed

lemma main_xiv_Engine_D:
  assumes "main_xiv eng env now parquet = Inl (Engine x ps)"
  shows "\<exists>outdir. \<forall>p \<in> set ps.
           p = keyed_path outdir (strftime_run_id now) Schema
         \<or> p = keyed_path outdir (strftime_run_id now) Duplicatas
         \<or> p = keyed_path outdir (strftime_run_id now) Describe
         \<or> p = keyed_path outdir (strftime_run_id now) Quantis"
  using assms
  by (auto simp: main_xiv_def Let_def optional_path_def split: option.splits sum.splits if_splits)

lemma keyed_written_form:
  assumes p: "p \<in> set (keyed_written (main_xiv eng env now parquet))"
  shows "\<exists>outdir k. p = keyed_path outdir (strftime_run_id now) k"
proof (cases "main_xiv eng env now parquet")
  case (Inl f)
  show ?thesis
  proof (cases f)
    case (Raised e)
    with Inl p show ?thesis by (simp add: keyed_written_def)
  next
    case (Engine x ps)
    with Inl p have mem: "p \<in> set ps" by (simp add: keyed_written_def)
    from Inl Engine have "main_xiv eng env now parquet = Inl (Engine x ps)" by simp
    from main_xiv_Engine_D [OF this] mem obtain outdir where
      "p = keyed_path outdir (strftime_run_id now) Schema
       \<or> p = keyed_path outdir (strftime_run_id now) Duplicatas
       \<or> p = keyed_path outdir (strftime_run_id now) Describe
       \<or> p = keyed_path outdir (strftime_run_id now) Quantis"
      by blast
    then show ?thesis by blast
  qed
next
  case (Inr out)
  with p have mem: "p \<in> set (keyed_paths out)" by (simp add: keyed_written_def)
  from main_xiv_Inr_D [OF Inr] have r: "run_id out = strftime_run_id now" by (elim exE conjE)
  from keyed_paths_form [OF Inr mem] show ?thesis unfolding r .
qed

lemma keyed_written_subset:
  "set (keyed_written (main_xiv eng env now parquet)) \<subseteq> set (files_written (main_xiv eng env now parquet))"
proof (cases "main_xiv eng env now parquet")
  case (Inl f)
  then show ?thesis by (cases f) (simp_all add: keyed_written_def files_written_def)
next
  case (Inr out)
  with keyed_paths_written [OF Inr] show ?thesis
    by (simp add: keyed_written_def files_written_def)
qed

lemma files_written_completed:
  assumes run: "main_xiv eng env now parquet = Inr out"
  shows "\<exists>outdir. set (files_written (main_xiv eng env now parquet)) =
           set (keyed_written (main_xiv eng env now parquet))
           \<union> (\<lambda>n. outdir @ [''figuras'', n]) ` set (figuras out)"
proof -
  from main_xiv_Inr_D [OF run] obtain outdir where
    w: "written out = [schema_csv out, duplicatas_json out] @ optional_path (describe_csv out)
       @ optional_path (quantis_csv out) @ optional_path (ranges_csv out)
       @ map (\<lambda>n. outdir @ [''figuras'', n]) (figuras out) @ [meta_file out, log_file out]"
    by (elim exE conjE)
  have "set (written out) = set (keyed_paths out) \<union> (\<lambda>n. outdir @ [''figuras'', n]) ` set (figuras out)"
    unfolding w keyed_paths_def by auto
  then show ?thesis by (auto simp: run files_written_def keyed_written_def)
qed

text \<open>
  Claim C8, as amended. In the profiling script the tables, the metadata and the log are
  written under names that carry the run identifier, the local start time rendered to the
  second; so are the tables that a run had written when an error of the engine ended it.
  Two runs that complete have the same identifier exactly when their clock readings fall
  in the same second. Two runs whose clock readings fall in different seconds, completed
  or not and whatever their output directories, share no path of these artifacts. The
  confirmation script P1.1b has no run identifier: a run that finds both inputs writes
  exactly its two constant paths, whatever the time and the tables, and a run that finds
  an input missing writes nothing and returns 2.
\<close>

theorem keyed_artifacts_distinct:
  fixes eng :: "('v, 'e, 'r) engine" and eng' :: "('v, 'e, 'r) engine"
    and csv pq :: "'w stored_file"
  assumes v: "valid_clock now" and v': "valid_clock now'"
  shows "(\<forall>p \<in> set (keyed_written (main_xiv eng env now parquet)).
            \<exists>outdir k. p = keyed_path outdir (strftime_run_id now) k)
       \<and> set (keyed_written (main_xiv eng env now parquet))
            \<subseteq> set (files_written (main_xiv eng env now parquet))
       \<and> (main_xiv eng env now parquet = Inr out \<longrightarrow>
            run_id out = strftime_run_id now \<and>
            (\<exists>outdir. set (files_written (main_xiv eng env now parquet)) =
               set (keyed_written (main_xiv eng env now parquet))
               \<union> (\<lambda>n. outdir @ [''figuras'', n]) ` set (figuras out)))
       \<and> (strftime_run_id now = strftime_run_id now' \<longleftrightarrow> same_second now now')
       \<and> (\<not> same_second now now' \<longrightarrow>
            set (keyed_written (main_xiv eng env now parquet))
            \<inter> set (keyed_written (main_xiv eng' env' now' parquet')) = {})
       \<and> map fst (files (main_p1_1b show_path to_string now (Some csv) (Some pq)))
            = [OUT_SCHEMA, OUT_TXT]
       \<and> map fst (files (main_p1_1b show_path to_string now' (Some csv') (Some pq')))
            = [OUT_SCHEMA, OUT_TXT]
       \<and> (csv_file = None \<or> pq_file = None \<longrightarrow>
            main_p1_1b show_path to_string now csv_file pq_file = \<lparr>exit_code = 2, files = []\<rparr>)"
proof -
  have form: "\<forall>p \<in> set (keyed_written (main_xiv eng env now parquet)).
      \<exists>outdir k. p = keyed_path outdir (strftime_run_id now) k"
    using keyed_written_form [of _ eng env now parquet] by blast
  have sub: "set (keyed_written (main_xiv eng env now parquet))
      \<subseteq> set (files_written (main_xiv eng env now parquet))"
    by (rule keyed_written_subset)
  have completed: "run_id out = strftime_run_id now \<and>
      (\<exists>outdir. set (files_written (main_xiv eng env now parquet)) =
         set (keyed_written (main_xiv eng env now parquet))
         \<union> (\<lambda>n. outdir @ [''figuras'', n]) ` set (figuras out))"
    if run: "main_xiv eng env now parquet = Inr out"
  proof -
    from main_xiv_Inr_D [OF run] have "run_id out = strftime_run_id now" by (elim exE conjE)
    with files_written_completed [OF run] show ?thesis by blast
  qed
  have ids: "strftime_run_id now = strftime_run_id now' \<longleftrightarrow> same_second now now'"
    using strftime_run_id_inj [OF v v'] strftime_run_id_same_second [of now now'] by blast
  have disj: "set (keyed_written (main_xiv eng env now parquet))
      \<inter> set (keyed_written (main_xiv eng' env' now' parquet')) = {}"
    if ns: "\<not> same_second now now'"
  proof (rule ccontr)
    assume "set (keyed_written (main_xiv eng env now parquet))
      \<inter> set (keyed_written (main_xiv eng' env' now' parquet')) \<noteq> {}"
    then obtain p where p: "p \<in> set (keyed_written (main_xiv eng env now parquet))"
      and p': "p \<in> set (keyed_written (main_xiv eng' env' now' parquet'))"
      by blast
    from keyed_written_form [OF p] obtain outdir k
      where 1: "p = keyed_path outdir (strftime_run_id now) k" by blast
    from keyed_written_form [OF p'] obtain outdir' k'
      where 2: "p = keyed_path outdir' (strftime_run_id now') k'" by blast
    from 1 2 have "keyed_path outdir (strftime_run_id now) k = keyed_path outdir' (strftime_run_id now') k'"
      by (simp del: keyed_path.simps)
    then have "strftime_run_id now = strftime_run_id now'" by (rule keyed_path_inj)
    with ids ns show False by simp
  qed
  have both: "map fst (files (main_p1_1b show_path to_string t (Some c) (Some q))) = [OUT_SCHEMA, OUT_TXT]"
    for t and c q :: "'w stored_file"
    by (simp add: main_p1_1b_def)
  have missing: "main_p1_1b show_path to_string now csv_file pq_file = \<lparr>exit_code = 2, files = []\<rparr>"
    if "csv_file = None \<or> pq_file = None"
    using that by (auto simp: main_p1_1b_def split: option.splits)
  from form sub completed ids disj both [of now csv pq] both [of now' csv' pq'] missing
  show ?thesis by blast
qed

theorem keyed_artifacts_distinct_witness:
  "keyed_written (main_xiv failing_engine (Some example_env) morning (Some meteo_num_df)) =
     [[''resultados'', ''xiv'', ''tabelas'', ''schema_nulos_20250307_090500.csv''],
      [''resultados'', ''xiv'', ''tabelas'', ''duplicatas_20250307_090500.json'']]
   \<and> [''resultados'', ''xiv'', ''tabelas'', ''schema_nulos_20250307_214013.csv'']
       \<in> set (keyed_written (main_xiv ref_engine (Some example_env) evening (Some meteo_num_df)))
   \<and> set (keyed_written (main_xiv failing_engine (Some example_env) morning (Some meteo_num_df)))
       \<inter> set (keyed_written (main_xiv ref_engine (Some example_env) evening (Some meteo_num_df))) = {}
   \<and> strftime_run_id morning \<noteq> strftime_run_id evening
   \<and> map fst (files (main_p1_1b (join ''/'') (\<lambda>d. ''...'') morning (Some csv_stored) (Some parquet_stored)))
       = [OUT_SCHEMA, OUT_TXT]
   \<and> main_p1_1b (join ''/'') (\<lambda>d. ''...'') morning None (Some parquet_stored)
       = \<lparr>exit_code = 2, files = []\<rparr>"
proof -
  have v: "valid_clock morning" and v': "valid_clock evening"
    by (simp_all add: valid_clock_def morning_def evening_def)
  have ns: "\<not> same_second morning evening"
    by (simp add: same_second_def morning_def evening_def)
  note inst = keyed_artifacts_distinct [OF v v', where eng = failing_engine and eng' = ref_engine
      and env = "Some example_env" and env' = "Some example_env"
      and parquet = "Some meteo_num_df" and parquet' = "Some meteo_num_df"
      and show_path = "join ''/''" and to_string = "\<lambda>d. ''...''"
      and csv = csv_stored and pq = parquet_stored and csv' = csv_stored and pq' = parquet_stored
      and csv_file = None and pq_file = "Some parquet_stored"]
  have failed: "keyed_written (main_xiv failing_engine (Some example_env) morning (Some meteo_num_df)) =
     [[''resultados'', ''xiv'', ''tabelas'', ''schema_nulos_20250307_090500.csv''],
      [''resultados'', ''xiv'', ''tabelas'', ''duplicatas_20250307_090500.json'']]"
    by code_simp
  have later: "[''resultados'', ''xiv'', ''tabelas'', ''schema_nulos_20250307_214013.csv'']
       \<in> set (keyed_written (main_xiv ref_engine (Some example_env) evening (Some meteo_num_df)))"
    by code_simp
  note rest4 = inst [THEN conjunct2, THEN conjunct2, THEN conjunct2]
  note rest6 = rest4 [THEN conjunct2, THEN conjunct2]
  from rest4 [THEN conjunct2, THEN conjunct1, THEN mp, OF ns] have disj:
    "set (keyed_written (main_xiv failing_engine (Some example_env) morning (Some meteo_num_df)))
       \<inter> set (keyed_written (main_xiv ref_engine (Some example_env) evening (Some meteo_num_df))) = {}" .
  from rest4 [THEN conjunct1] ns have ids: "strftime_run_id morning \<noteq> strftime_run_id evening"
    by blast
  from rest6 [THEN conjunct1] have fixed:
    "map fst (files (main_p1_1b (join ''/'') (\<lambda>d. ''...'') morning (Some csv_stored) (Some parquet_stored)))
       = [OUT_SCHEMA, OUT_TXT]" .
  have miss: "None = None \<or> Some parquet_stored = None" by simp
  from rest6 [THEN conjunct2, THEN conjunct2, THEN mp, OF miss] have absent:
    "main_p1_1b (join ''/'') (\<lambda>d. ''...'') morning None (Some parquet_stored)
       = \<lparr>exit_code = 2, files = []\<rparr>" .
  from failed later disj ids fixed absent show ?thesis by (intro conjI)
qed

lemma morning_run:
  "case main_xiv ref_engine (Some example_env) morning (Some meteo_num_df) of
     Inl x \<Rightarrow> False
   | Inr a \<Rightarrow> run_id a = ''20250307_090500''
       \<and> [''resultados'', ''xiv'', ''figuras'', ''hist_temp.png''] \<in> set (written a)
       \<and> [''resultados'', ''xiv'', ''tabelas'', ''schema_nulos_20250307_090500.csv''] \<in> set (keyed_paths a)"
  by code_simp

lemma evening_run:
  "case main_xiv ref_engine (Some example_env) evening (Some meteo_num_df) of
     Inl x \<Rightarrow> False
   | Inr a \<Rightarrow> run_id a = ''20250307_214013''
       \<and> [''resultados'', ''xiv'', ''figuras'', ''hist_temp.png''] \<in> set (written a)
       \<and> [''resultados'', ''xiv'', ''tabelas'', ''schema_nulos_20250307_214013.csv''] \<in> set (keyed_paths a)"
  by code_simp


text \<open>
  Claim C8 as stated fails: the figures of the profiling script have fixed names, so two
  runs with different run identifiers write the same figure path; and the two outputs of
  the confirmation script P1.1b are module constants, written again by every run that
  finds both of its inputs.
\<close>

theorem evidence_paths_reused_counterexample:
  "(\<exists>a b. main_xiv ref_engine (Some example_env) morning (Some meteo_num_df) = Inr a
        \<and> main_xiv ref_engine (Some example_env) evening (Some meteo_num_df) = Inr b
        \<and> run_id a \<noteq> run_id b
        \<and> [''resultados'', ''xiv'', ''figuras'', ''hist_temp.png''] \<in> set (written a) \<inter> set (written b))
   \<and> map fst (files (main_p1_1b (join ''/'') (\<lambda>d. ''...'') morning (Some csv_stored) (Some parquet_stored)))
       = [OUT_SCHEMA, OUT_TXT]
   \<and> map fst (files (main_p1_1b (join ''/'') (\<lambda>d. ''...'') evening (Some csv_stored) (Some parquet_stored)))
       = [OUT_SCHEMA, OUT_TXT]"
proof -
  from morning_run obtain a
    where a: "main_xiv ref_engine (Some example_env) morning (Some meteo_num_df) = Inr a"
      and ra: "run_id a = ''20250307_090500''"
      and fa: "[''resultados'', ''xiv'', ''figuras'', ''hist_temp.png''] \<in> set (written a)"
    by (auto split: sum.splits)
  from evening_run obtain b
    where b: "main_xiv ref_engine (Some example_env) evening (Some meteo_num_df) = Inr b"
      and rb: "run_id b = ''20250307_214013''"
      and fb: "[''resultados'', ''xiv'', ''figuras'', ''hist_temp.png''] \<in> set (written b)"
    by (auto split: sum.splits)
  from ra rb have "run_id a \<noteq> run_id b" by simp
  with a b fa fb have xiv: "\<exists>a b. main_xiv ref_engine (Some example_env) morning (Some meteo_num_df) = Inr a
        \<and> main_xiv ref_engine (Some example_env) evening (Some meteo_num_df) = Inr b
        \<and> run_id a \<noteq> run_id b
        \<and> [''resultados'', ''xiv'', ''figuras'', ''hist_temp.png''] \<in> set (written a) \<inter> set (written b)"
    by blast
  have "map fst (files (main_p1_1b (join ''/'') (\<lambda>d. ''...'') t (Some csv_stored) (Some parquet_stored)))
       = [OUT_SCHEMA, OUT_TXT]" for t
    by (simp add: main_p1_1b_def)
  with xiv show ?thesis by blast
qed

end
